theory Spec2Isabelle
  imports Main "HOL-Library.Char_ord" "HOL-Library.List_Lexorder"
begin

section \<open>Errors\<close>

text \<open>
  The Go code returns values of the interface type \<open>error\<close>; \<open>nil\<close> is \<open>None\<close>.
  The constructors are the concrete error types that can reach the code of
  \<^verbatim>\<open>celery.go\<close>: \<open>SyntaxError\<close> and \<open>UnmarshalTypeError\<close> (with the Go
  description of the offending JSON value and the struct field) from
  \<^verbatim>\<open>encoding/json\<close> on decoding, \<open>UnsupportedTypeError\<close> and \<open>MarshalerError\<close> from
  \<^verbatim>\<open>encoding/json\<close> on encoding, \<open>ParseError\<close> (with the text that was parsed) from
  \<^verbatim>\<open>time.Parse\<close>, and \<open>BrokerError\<close> for whatever the AMQP channel returns.
\<close>

datatype error =
    SyntaxError
  | UnmarshalTypeError string string
  | UnsupportedTypeError
  | MarshalerError error
  | ParseError string
  | BrokerError string

section \<open>Package time\<close>

subsection \<open>Instants\<close>

text \<open>
  A \<^verbatim>\<open>time.Time\<close> is an instant together with a location. The instant is
  represented by its civil reading in UTC (Go stores a count of seconds and
  nanoseconds and computes these fields from it; the two determine each other), so
  that \<^verbatim>\<open>t.UTC()\<close> only replaces the location.
\<close>

datatype Location = UTC | FixedZone string int

record Time =
  Year :: int
  Month :: int
  Day :: int
  Hour :: int
  Minute :: int
  Second :: int
  Nanosecond :: int
  Loc :: Location

definition isLeap :: "int \<Rightarrow> bool" where
  "isLeap y = (y mod 4 = 0 \<and> (y mod 100 \<noteq> 0 \<or> y mod 400 = 0))"

definition daysIn :: "int \<Rightarrow> int \<Rightarrow> int" where
  "daysIn m y =
     (if m = 2 then (if isLeap y then 29 else 28)
      else if m = 4 \<or> m = 6 \<or> m = 9 \<or> m = 11 then 30 else 31)"

text \<open>The civil readings that are the reading of some instant.\<close>

definition valid_time :: "Time \<Rightarrow> bool" where
  "valid_time t =
     (1 \<le> Month t \<and> Month t \<le> 12 \<and> 1 \<le> Day t \<and> Day t \<le> daysIn (Month t) (Year t)
      \<and> 0 \<le> Hour t \<and> Hour t < 24 \<and> 0 \<le> Minute t \<and> Minute t < 60
      \<and> 0 \<le> Second t \<and> Second t < 60
      \<and> 0 \<le> Nanosecond t \<and> Nanosecond t < 1000000000)"

text \<open>The zero value \<^verbatim>\<open>Time{}\<close>: January 1, year 1, 00:00:00 UTC.\<close>

definition zeroTime :: Time where
  "zeroTime = \<lparr>Year = 1, Month = 1, Day = 1, Hour = 0, Minute = 0, Second = 0,
                Nanosecond = 0, Loc = UTC\<rparr>"

text \<open>\<^verbatim>\<open>IsZero\<close> looks at the instant only, not at the location.\<close>

definition IsZero :: "Time \<Rightarrow> bool" where
  "IsZero t = (Year t = 1 \<and> Month t = 1 \<and> Day t = 1 \<and> Hour t = 0 \<and> Minute t = 0
               \<and> Second t = 0 \<and> Nanosecond t = 0)"

definition toUTC :: "Time \<Rightarrow> Time" where
  "toUTC t = t\<lparr>Loc := UTC\<rparr>"


subsection \<open>Layouts\<close>

text \<open>
  \<^verbatim>\<open>Format\<close> and \<^verbatim>\<open>Parse\<close> read a layout string as a sequence of chunks
  (\<^verbatim>\<open>nextStdChunk\<close>): literal text and the reference fields. The layout of
  \<^verbatim>\<open>celery.go\<close>,
  \<^verbatim>\<open>const timeFormat = "2006-01-02T15:04:05.999999"\<close>,
  is read as \<^verbatim>\<open>2006\<close> (stdLongYear), \<^verbatim>\<open>01\<close> (stdZeroMonth), \<^verbatim>\<open>02\<close>
  (stdZeroDay), \<^verbatim>\<open>15\<close> (stdHour), \<^verbatim>\<open>04\<close> (stdZeroMinute), \<^verbatim>\<open>05\<close>
  (stdZeroSecond) and \<^verbatim>\<open>.999999\<close> (stdFracSecond9 with six digits), with the
  literals \<^verbatim>\<open>-\<close>, \<^verbatim>\<open>T\<close> and \<^verbatim>\<open>:\<close> between them.
\<close>

datatype chunk =
    Lit string
  | stdLongYear
  | stdZeroMonth
  | stdZeroDay
  | stdHour
  | stdZeroMinute
  | stdZeroSecond
  | stdFracSecond9 nat

definition timeFormat :: "chunk list" where
  "timeFormat =
     [stdLongYear, Lit ''-'', stdZeroMonth, Lit ''-'', stdZeroDay, Lit ''T'',
      stdHour, Lit '':'', stdZeroMinute, Lit '':'', stdZeroSecond, stdFracSecond9 6]"

subsection \<open>Decimal digits\<close>

text \<open>Bytes are read as Go reads them: numbers from 0 to 255.\<close>

abbreviation byte :: "char \<Rightarrow> int" where
  "byte c \<equiv> of_char c"

definition digit_char :: "int \<Rightarrow> char" where
  "digit_char d = char_of (48 + d)"

definition isDigit :: "char \<Rightarrow> bool" where
  "isDigit c = (48 \<le> byte c \<and> byte c \<le> 57)"

definition digit_val :: "char \<Rightarrow> int" where
  "digit_val c = byte c - 48"

text \<open>The decimal digits of a number that is not negative, most significant first.\<close>

function itoa :: "int \<Rightarrow> string" where
  "itoa n = (if n < 10 then [digit_char n] else itoa (n div 10) @ [digit_char (n mod 10)])"
  by pat_completeness auto
termination
  by (relation "measure nat") auto

declare itoa.simps [simp del]

text \<open>The number a string of decimal digits denotes (the empty string denotes 0).\<close>

definition atoi_digits :: "string \<Rightarrow> int" where
  "atoi_digits s = foldl (\<lambda>acc c. 10 * acc + digit_val c) 0 s"

text \<open>
  \<^verbatim>\<open>appendInt(b, x, width)\<close>: a minus sign for a negative number, then the
  decimal digits padded with zeros on the left to at least \<open>width\<close> digits.
\<close>

definition appendInt :: "int \<Rightarrow> nat \<Rightarrow> string" where
  "appendInt x width =
     (let ds = itoa \<bar>x\<bar>
      in (if x < 0 then ''-'' else '''') @ replicate (width - length ds) (CHR ''0'') @ ds)"

subsection \<open>Format\<close>

text \<open>
  \<^verbatim>\<open>formatNano\<close> with trimming (the \<^verbatim>\<open>9\<close> form of the fraction): the first
  \<open>n\<close> of the nine digits of the nanoseconds, without their trailing zeros, after
  a period; nothing at all when no digit is left.
\<close>

definition formatNano :: "int \<Rightarrow> nat \<Rightarrow> string" where
  "formatNano nanosec n =
     (let ds = take n (appendInt nanosec 9);
          kept = rev (dropWhile (\<lambda>c. c = CHR ''0'') (rev ds))
      in if kept = [] then [] else CHR ''.'' # kept)"

fun format_chunk :: "chunk \<Rightarrow> Time \<Rightarrow> string" where
  "format_chunk (Lit s) t = s"
| "format_chunk stdLongYear t = appendInt (Year t) 4"
| "format_chunk stdZeroMonth t = appendInt (Month t) 2"
| "format_chunk stdZeroDay t = appendInt (Day t) 2"
| "format_chunk stdHour t = appendInt (Hour t) 2"
| "format_chunk stdZeroMinute t = appendInt (Minute t) 2"
| "format_chunk stdZeroSecond t = appendInt (Second t) 2"
| "format_chunk (stdFracSecond9 n) t = formatNano (Nanosecond t) n"

text \<open>
  \<^verbatim>\<open>t.Format(layout)\<close> for a time whose location is UTC, which is how
  \<^verbatim>\<open>celery.go\<close> calls it (\<^verbatim>\<open>t.ETA.UTC().Format(timeFormat)\<close>): the fields
  printed are the civil reading in UTC.
\<close>

definition Format :: "Time \<Rightarrow> chunk list \<Rightarrow> string" where
  "Format t layout = concat (map (\<lambda>c. format_chunk c t) layout)"

subsection \<open>Parse\<close>

text \<open>
  \<^verbatim>\<open>getnum(s, fixed)\<close>: one or two leading digits; with \<open>fixed\<close> exactly two.
\<close>

fun getnum :: "string \<Rightarrow> bool \<Rightarrow> (int \<times> string) option" where
  "getnum [] fixed = None"
| "getnum [a] fixed =
     (if \<not> isDigit a then None else if fixed then None else Some (digit_val a, []))"
| "getnum (a # b # s) fixed =
     (if \<not> isDigit a then None
      else if \<not> isDigit b then (if fixed then None else Some (digit_val a, b # s))
      else Some (digit_val a * 10 + digit_val b, s))"

text \<open>
  The fractional second of the \<^verbatim>\<open>stdFracSecond9\<close> case: absent unless a period or
  comma and a digit follow; otherwise all the digits that follow are taken, and
  \<^verbatim>\<open>parseNanoseconds\<close> reads the first nine of them as a fraction of a second.
\<close>

definition commaOrPeriod :: "char \<Rightarrow> bool" where
  "commaOrPeriod c = (c = CHR ''.'' \<or> c = CHR '','')"

definition parseNanoseconds :: "string \<Rightarrow> int" where
  "parseNanoseconds ds = (let ds9 = take 9 ds in atoi_digits ds9 * 10 ^ (9 - length ds9))"

fun parseFrac :: "string \<Rightarrow> (int option \<times> string)" where
  "parseFrac (a # b # s) =
     (if commaOrPeriod a \<and> isDigit b
      then (Some (parseNanoseconds (takeWhile isDigit (b # s))), dropWhile isDigit (b # s))
      else (None, a # b # s))"
| "parseFrac s = (None, s)"

text \<open>
  The loop of \<^verbatim>\<open>Parse\<close> over the chunks of the layout, on the text that is left
  and the fields read so far; \<open>None\<close> is any of its error returns.
\<close>

fun skip_prefix :: "string \<Rightarrow> string \<Rightarrow> string option" where
  "skip_prefix [] v = Some v"
| "skip_prefix (p # ps) [] = None"
| "skip_prefix (p # ps) (c # v) = (if p = c then skip_prefix ps v else None)"

fun parse_chunks :: "chunk list \<Rightarrow> string \<Rightarrow> Time \<Rightarrow> Time option" where
  "parse_chunks [] v t = (if v = [] then Some t else None)"
| "parse_chunks (Lit p # cs) v t =
     (case skip_prefix p v of None \<Rightarrow> None | Some v' \<Rightarrow> parse_chunks cs v' t)"
| "parse_chunks (stdLongYear # cs) v t =
     (if length v < 4 \<or> \<not> list_all isDigit (take 4 v) then None
      else parse_chunks cs (drop 4 v) (t\<lparr>Year := atoi_digits (take 4 v)\<rparr>))"
| "parse_chunks (stdZeroMonth # cs) v t =
     (case getnum v True of None \<Rightarrow> None
      | Some (m, v') \<Rightarrow>
          if m \<le> 0 \<or> 12 < m then None else parse_chunks cs v' (t\<lparr>Month := m\<rparr>))"
| "parse_chunks (stdZeroDay # cs) v t =
     (case getnum v True of None \<Rightarrow> None
      | Some (d, v') \<Rightarrow> parse_chunks cs v' (t\<lparr>Day := d\<rparr>))"
| "parse_chunks (stdHour # cs) v t =
     (case getnum v False of None \<Rightarrow> None
      | Some (h, v') \<Rightarrow> if 24 \<le> h then None else parse_chunks cs v' (t\<lparr>Hour := h\<rparr>))"
| "parse_chunks (stdZeroMinute # cs) v t =
     (case getnum v True of None \<Rightarrow> None
      | Some (m, v') \<Rightarrow> if 60 \<le> m then None else parse_chunks cs v' (t\<lparr>Minute := m\<rparr>))"
| "parse_chunks (stdZeroSecond # cs) v t =
     (case getnum v True of None \<Rightarrow> None
      | Some (s, v') \<Rightarrow> if 60 \<le> s then None else parse_chunks cs v' (t\<lparr>Second := s\<rparr>))"
| "parse_chunks (stdFracSecond9 n # cs) v t =
     (case parseFrac v of
        (None, v') \<Rightarrow> parse_chunks cs v' t
      | (Some ns, v') \<Rightarrow> parse_chunks cs v' (t\<lparr>Nanosecond := ns\<rparr>))"

text \<open>
  \<^verbatim>\<open>time.Parse(layout, value)\<close>. The fields start as year 0, month and day 1 (as in
  Go, where month and day start at -1 and are set to 1 when the layout has none);
  after the loop the day is checked against the month, and the result is a time
  in UTC. On any error the time returned is \<^verbatim>\<open>Time{}\<close>.
\<close>

definition Parse :: "chunk list \<Rightarrow> string \<Rightarrow> Time \<times> error option" where
  "Parse layout v =
     (case parse_chunks layout v
             \<lparr>Year = 0, Month = 1, Day = 1, Hour = 0, Minute = 0, Second = 0,
              Nanosecond = 0, Loc = UTC\<rparr> of
        None \<Rightarrow> (zeroTime, Some (ParseError v))
      | Some t \<Rightarrow>
          if Day t < 1 \<or> daysIn (Month t) (Year t) < Day t then (zeroTime, Some (ParseError v))
          else (t, None))"

section \<open>Package encoding/json: JSON text\<close>

subsection \<open>JSON values\<close>

text \<open>
  A JSON document as the decoder sees it, before any Go type is involved: numbers
  are kept as their literal, strings are unquoted, and the members of an object are
  kept in the order of the text, duplicates included.
\<close>

datatype json =
    JNull
  | JBool bool
  | JNumber string
  | JString string
  | JArray "json list"
  | JObject "(string \<times> json) list"

abbreviation dq :: char where
  "dq \<equiv> CHR 0x22"

abbreviation bs :: char where
  "bs \<equiv> CHR 0x5C"

subsection \<open>UTF-8\<close>

text \<open>
  The multi-byte encodings \<^verbatim>\<open>utf8.DecodeRune\<close> accepts: of two, three and four
  bytes, shortest form only, no surrogates, nothing above U+10FFFF.
\<close>

definition cont :: "char \<Rightarrow> bool" where
  "cont c = (0x80 \<le> byte c \<and> byte c \<le> 0xBF)"

definition utf8_2 :: "char \<Rightarrow> char \<Rightarrow> bool" where
  "utf8_2 a b = (0xC2 \<le> byte a \<and> byte a \<le> 0xDF \<and> cont b)"

definition utf8_3 :: "char \<Rightarrow> char \<Rightarrow> char \<Rightarrow> bool" where
  "utf8_3 a b c =
     ((byte a = 0xE0 \<and> 0xA0 \<le> byte b \<and> byte b \<le> 0xBF
       \<or> (0xE1 \<le> byte a \<and> byte a \<le> 0xEC \<or> byte a = 0xEE \<or> byte a = 0xEF) \<and> cont b
       \<or> byte a = 0xED \<and> 0x80 \<le> byte b \<and> byte b \<le> 0x9F)
      \<and> cont c)"

definition utf8_4 :: "char \<Rightarrow> char \<Rightarrow> char \<Rightarrow> char \<Rightarrow> bool" where
  "utf8_4 a b c d =
     ((byte a = 0xF0 \<and> 0x90 \<le> byte b \<and> byte b \<le> 0xBF
       \<or> 0xF1 \<le> byte a \<and> byte a \<le> 0xF3 \<and> cont b
       \<or> byte a = 0xF4 \<and> 0x80 \<le> byte b \<and> byte b \<le> 0x8F)
      \<and> cont c \<and> cont d)"

text \<open>
  The size of the multi-byte encoding at the head of a string, 0 when there is
  none (where \<^verbatim>\<open>DecodeRune\<close> returns \<^verbatim>\<open>RuneError\<close> with size 1).
\<close>

fun utf8_len :: "string \<Rightarrow> nat" where
  "utf8_len (a # b # c # d # r) =
     (if utf8_2 a b then 2 else if utf8_3 a b c then 3 else if utf8_4 a b c d then 4 else 0)"
| "utf8_len [a, b, c] = (if utf8_2 a b then 2 else if utf8_3 a b c then 3 else 0)"
| "utf8_len [a, b] = (if utf8_2 a b then 2 else 0)"
| "utf8_len r = 0"


text \<open>\<^verbatim>\<open>utf8.EncodeRune\<close>; surrogates and values out of range become U+FFFD.\<close>

definition EncodeRune :: "int \<Rightarrow> string" where
  "EncodeRune r =
     (if 0 \<le> r \<and> r < 0x80 then [char_of r]
      else if 0 \<le> r \<and> r < 0x800 then [char_of (0xC0 + r div 64), char_of (0x80 + r mod 64)]
      else if r < 0 \<or> 0x10FFFF < r \<or> (0xD800 \<le> r \<and> r < 0xE000)
        then [CHR 0xEF, CHR 0xBF, CHR 0xBD]
      else if r < 0x10000
        then [char_of (0xE0 + r div 4096), char_of (0x80 + (r div 64) mod 64),
              char_of (0x80 + r mod 64)]
      else [char_of (0xF0 + r div 262144), char_of (0x80 + (r div 4096) mod 64),
            char_of (0x80 + (r div 64) mod 64), char_of (0x80 + r mod 64)])"

subsection \<open>Writing JSON text\<close>

definition hex_char :: "int \<Rightarrow> char" where
  "hex_char d = (if d < 10 then char_of (48 + d) else char_of (87 + d))"

text \<open>
  The encoder's string escaping (\<^verbatim>\<open>appendString\<close> with HTML escaping, which
  \<^verbatim>\<open>json.Marshal\<close> switches on). A byte below 0x80 is copied when it is in
  \<^verbatim>\<open>htmlSafeSet\<close> (from the space on, except the quote, the backslash,
  \<^verbatim>\<open>&\<close>, \<^verbatim>\<open><\<close> and \<^verbatim>\<open>>\<close>); the quote and the backslash get a backslash;
  backspace, form feed, newline, carriage return and tab get their letter; every
  other such byte is written \<^verbatim>\<open>\u00XX\<close>.
\<close>

definition escape_ascii :: "char \<Rightarrow> string" where
  "escape_ascii c =
     (if c = dq \<or> c = bs then [bs, c]
      else if c = CHR 0x08 then [bs, CHR ''b'']
      else if c = CHR 0x0C then [bs, CHR ''f'']
      else if c = CHR 0x0A then [bs, CHR ''n'']
      else if c = CHR 0x0D then [bs, CHR ''r'']
      else if c = CHR 0x09 then [bs, CHR ''t'']
      else if byte c < 0x20 \<or> c = CHR ''&'' \<or> c = CHR ''<'' \<or> c = CHR ''>''
        then [bs, CHR ''u'', CHR ''0'', CHR ''0'', hex_char (byte c div 16), hex_char (byte c mod 16)]
      else [c])"

text \<open>
  From 0x80 on the encoder decodes a rune: an invalid byte is written
  as the escape of U+FFFD, U+2028 and U+2029 are written as escapes, and any other valid
  encoding is copied.
\<close>

function esc :: "string \<Rightarrow> string" where
  "esc [] = []"
| "esc (c # cs) =
     (if byte c < 0x80 then escape_ascii c @ esc cs
      else if utf8_len (c # cs) = 0 then bs # ''ufffd'' @ esc cs
      else if take 3 (c # cs) = [CHR 0xE2, CHR 0x80, CHR 0xA8]
        then bs # ''u2028'' @ esc (drop 3 (c # cs))
      else if take 3 (c # cs) = [CHR 0xE2, CHR 0x80, CHR 0xA9]
        then bs # ''u2029'' @ esc (drop 3 (c # cs))
      else take (utf8_len (c # cs)) (c # cs) @ esc (drop (utf8_len (c # cs)) (c # cs)))"
  by pat_completeness auto
termination
  by (relation "measure length") (auto split: nat.splits)

definition quote :: "string \<Rightarrow> string" where
  "quote s = dq # esc s @ [dq]"

text \<open>The compact text the encoder writes for a value.\<close>

fun print_json :: "json \<Rightarrow> string"
  and print_elems :: "json list \<Rightarrow> string"
  and print_members :: "(string \<times> json) list \<Rightarrow> string" where
  "print_json JNull = ''null''"
| "print_json (JBool b) = (if b then ''true'' else ''false'')"
| "print_json (JNumber l) = l"
| "print_json (JString s) = quote s"
| "print_json (JArray xs) = ''['' @ print_elems xs @ '']''"
| "print_json (JObject ms) = ''{'' @ print_members ms @ ''}''"
| "print_elems [] = []"
| "print_elems [x] = print_json x"
| "print_elems (x # y # xs) = print_json x @ '','' @ print_elems (y # xs)"
| "print_members [] = []"
| "print_members [(k, v)] = quote k @ '':'' @ print_json v"
| "print_members ((k, v) # m # ms) = quote k @ '':'' @ print_json v @ '','' @ print_members (m # ms)"

subsection \<open>Reading JSON text\<close>

definition isSpace :: "char \<Rightarrow> bool" where
  "isSpace c = (c = CHR 0x20 \<or> c = CHR 0x09 \<or> c = CHR 0x0D \<or> c = CHR 0x0A)"

definition skip_ws :: "string \<Rightarrow> string" where
  "skip_ws s = dropWhile isSpace s"

definition hex_val :: "char \<Rightarrow> int option" where
  "hex_val c =
     (if 48 \<le> byte c \<and> byte c \<le> 57 then Some (byte c - 48)
      else if 97 \<le> byte c \<and> byte c \<le> 102 then Some (byte c - 87)
      else if 65 \<le> byte c \<and> byte c \<le> 70 then Some (byte c - 55)
      else None)"

text \<open>\<^verbatim>\<open>getu4\<close>: the number of the four hexadecimal digits after \<^verbatim>\<open>\u\<close>.\<close>

fun getu4 :: "string \<Rightarrow> int option" where
  "getu4 (a # b # c # d # r) =
     (case (hex_val a, hex_val b, hex_val c, hex_val d) of
        (Some x, Some y, Some z, Some w) \<Rightarrow> Some (((x * 16 + y) * 16 + z) * 16 + w)
      | _ \<Rightarrow> None)"
| "getu4 r = None"

text \<open>
  The low half of a surrogate pair, when the text goes on with another
  \<^verbatim>\<open>\uXXXX\<close> in the range of the low surrogates.
\<close>

fun low_surrogate :: "string \<Rightarrow> int option" where
  "low_surrogate (x # y # r) =
     (if x = bs \<and> y = CHR ''u'' then
        (case getu4 r of
           Some v \<Rightarrow> if 0xDC00 \<le> v \<and> v < 0xE000 then Some v else None
         | None \<Rightarrow> None)
      else None)"
| "low_surrogate r = None"

definition simple_escape :: "char \<Rightarrow> char option" where
  "simple_escape e =
     (if e = dq \<or> e = bs \<or> e = CHR ''/'' then Some e
      else if e = CHR ''b'' then Some (CHR 0x08)
      else if e = CHR ''f'' then Some (CHR 0x0C)
      else if e = CHR ''n'' then Some (CHR 0x0A)
      else if e = CHR ''r'' then Some (CHR 0x0D)
      else if e = CHR ''t'' then Some (CHR 0x09)
      else None)"

definition prepend :: "string \<Rightarrow> (string \<times> string) option \<Rightarrow> (string \<times> string) option" where
  "prepend p x = (case x of None \<Rightarrow> None | Some (s, r) \<Rightarrow> Some (p @ s, r))"

text \<open>
  A string literal, read from after its opening quote: the unquoted string and the
  text after the closing quote. The scanner refuses a control character and an
  unknown escape; \<^verbatim>\<open>unquote\<close> replaces an invalid byte and a lone surrogate by
  U+FFFD, joins a surrogate pair, and copies every valid encoding (which Go
  decodes and encodes again, to the same bytes).
\<close>

function string_lit :: "string \<Rightarrow> (string \<times> string) option" where
  "string_lit [] = None"
| "string_lit (c # cs) =
     (if c = dq then Some ([], cs)
      else if c = bs then
        (case cs of
           [] \<Rightarrow> None
         | e # r \<Rightarrow>
             if e = CHR ''u'' then
               (case getu4 r of
                  None \<Rightarrow> None
                | Some u \<Rightarrow>
                    if 0xD800 \<le> u \<and> u < 0xE000 then
                      (case (if u < 0xDC00 then low_surrogate (drop 4 r) else None) of
                         Some w \<Rightarrow>
                           prepend (EncodeRune ((u - 0xD800) * 1024 + (w - 0xDC00) + 0x10000))
                             (string_lit (drop 10 r))
                       | None \<Rightarrow> prepend [CHR 0xEF, CHR 0xBF, CHR 0xBD] (string_lit (drop 4 r)))
                    else prepend (EncodeRune u) (string_lit (drop 4 r)))
             else
               (case simple_escape e of
                  None \<Rightarrow> None
                | Some x \<Rightarrow> prepend [x] (string_lit r)))
      else if byte c < 0x20 then None
      else if byte c < 0x80 then prepend [c] (string_lit cs)
      else if utf8_len (c # cs) = 0 then prepend [CHR 0xEF, CHR 0xBF, CHR 0xBD] (string_lit cs)
      else prepend (take (utf8_len (c # cs)) (c # cs))
             (string_lit (drop (utf8_len (c # cs)) (c # cs))))"
  by pat_completeness auto
termination
  by (relation "measure length") (auto split: nat.splits)

declare string_lit.simps [simp del]
declare esc.simps [simp del]

text \<open>
  A number literal at the head of the text, as the scanner accepts it: an optional
  minus, \<^verbatim>\<open>0\<close> or a digit from 1 to 9 followed by digits, an optional fraction
  (a period and at least one digit) and an optional exponent (\<^verbatim>\<open>e\<close> or
  \<^verbatim>\<open>E\<close>, an optional sign, at least one digit).
\<close>

definition scan_int :: "string \<Rightarrow> (string \<times> string) option" where
  "scan_int s =
     (case s of
        [] \<Rightarrow> None
      | c # r \<Rightarrow>
          if c = CHR ''0'' then Some ([c], r)
          else if isDigit c then Some (takeWhile isDigit s, dropWhile isDigit s)
          else None)"

definition scan_frac :: "string \<Rightarrow> (string \<times> string) option" where
  "scan_frac s =
     (case s of
        c # d # r \<Rightarrow>
          if c = CHR ''.'' then
            (if isDigit d then Some (c # takeWhile isDigit (d # r), dropWhile isDigit (d # r))
             else None)
          else Some ([], s)
      | [c] \<Rightarrow> if c = CHR ''.'' then None else Some ([], s)
      | [] \<Rightarrow> Some ([], s))"

definition scan_digits1 :: "string \<Rightarrow> (string \<times> string) option" where
  "scan_digits1 s =
     (case s of
        [] \<Rightarrow> None
      | d # r \<Rightarrow> if isDigit d then Some (takeWhile isDigit s, dropWhile isDigit s) else None)"

definition scan_exp :: "string \<Rightarrow> (string \<times> string) option" where
  "scan_exp s =
     (case s of
        [] \<Rightarrow> Some ([], s)
      | c # r \<Rightarrow>
          if c = CHR ''e'' \<or> c = CHR ''E'' then
            (case r of
               [] \<Rightarrow> None
             | g # r' \<Rightarrow>
                 if g = CHR ''+'' \<or> g = CHR ''-''
                 then (case scan_digits1 r' of None \<Rightarrow> None | Some (ds, r'') \<Rightarrow> Some (c # g # ds, r''))
                 else (case scan_digits1 r of None \<Rightarrow> None | Some (ds, r'') \<Rightarrow> Some (c # ds, r'')))
          else Some ([], s))"

definition scan_number :: "string \<Rightarrow> (string \<times> string) option" where
  "scan_number s =
     (let (sign, s0) = (case s of [] \<Rightarrow> ([], s) | c # r \<Rightarrow> if c = CHR ''-'' then ([c], r) else ([], s))
      in case scan_int s0 of
           None \<Rightarrow> None
         | Some (i, s1) \<Rightarrow>
             (case scan_frac s1 of
                None \<Rightarrow> None
              | Some (f, s2) \<Rightarrow>
                  (case scan_exp s2 of
                     None \<Rightarrow> None
                   | Some (e, s3) \<Rightarrow> Some (sign @ i @ f @ e, s3))))"

text \<open>
  The value at the head of the text and the text after it. The first argument
  bounds the number of nested calls; \<open>parse_json\<close> gives it more than the text has
  bytes.
\<close>

fun parse_value :: "nat \<Rightarrow> string \<Rightarrow> (json \<times> string) option"
  and parse_elems :: "nat \<Rightarrow> string \<Rightarrow> (json list \<times> string) option"
  and parse_members :: "nat \<Rightarrow> string \<Rightarrow> ((string \<times> json) list \<times> string) option" where
  "parse_value 0 s = None"
| "parse_value (Suc n) s =
     (case skip_ws s of
        [] \<Rightarrow> None
      | c # r \<Rightarrow>
          if c = CHR ''{'' then
            (case skip_ws r of
               [] \<Rightarrow> None
             | c' # r' \<Rightarrow>
                 if c' = CHR ''}'' then Some (JObject [], r')
                 else (case parse_members n (c' # r') of
                         None \<Rightarrow> None
                       | Some (ms, r'') \<Rightarrow> Some (JObject ms, r'')))
          else if c = CHR ''['' then
            (case skip_ws r of
               [] \<Rightarrow> None
             | c' # r' \<Rightarrow>
                 if c' = CHR '']'' then Some (JArray [], r')
                 else (case parse_elems n (c' # r') of
                         None \<Rightarrow> None
                       | Some (xs, r'') \<Rightarrow> Some (JArray xs, r'')))
          else if c = dq then
            (case string_lit r of None \<Rightarrow> None | Some (str, r') \<Rightarrow> Some (JString str, r'))
          else if c = CHR ''t'' then
            (if take 3 r = ''rue'' then Some (JBool True, drop 3 r) else None)
          else if c = CHR ''f'' then
            (if take 4 r = ''alse'' then Some (JBool False, drop 4 r) else None)
          else if c = CHR ''n'' then
            (if take 3 r = ''ull'' then Some (JNull, drop 3 r) else None)
          else (case scan_number (c # r) of
                  None \<Rightarrow> None
                | Some (l, r') \<Rightarrow> Some (JNumber l, r')))"
| "parse_elems 0 s = None"
| "parse_elems (Suc n) s =
     (case parse_value n s of
        None \<Rightarrow> None
      | Some (x, r) \<Rightarrow>
          (case skip_ws r of
             [] \<Rightarrow> None
           | c # r' \<Rightarrow>
               if c = CHR '','' then
                 (case parse_elems n r' of None \<Rightarrow> None | Some (xs, r'') \<Rightarrow> Some (x # xs, r''))
               else if c = CHR '']'' then Some ([x], r')
               else None))"
| "parse_members 0 s = None"
| "parse_members (Suc n) s =
     (case skip_ws s of
        [] \<Rightarrow> None
      | q # r \<Rightarrow>
          if q \<noteq> dq then None
          else
            (case string_lit r of
               None \<Rightarrow> None
             | Some (k, r1) \<Rightarrow>
                 (case skip_ws r1 of
                    [] \<Rightarrow> None
                  | c # r2 \<Rightarrow>
                      if c \<noteq> CHR '':'' then None
                      else
                        (case parse_value n r2 of
                           None \<Rightarrow> None
                         | Some (v, r3) \<Rightarrow>
                             (case skip_ws r3 of
                                [] \<Rightarrow> None
                              | c' # r4 \<Rightarrow>
                                  if c' = CHR '','' then
                                    (case parse_members n r4 of
                                       None \<Rightarrow> None
                                     | Some (ms, r5) \<Rightarrow> Some ((k, v) # ms, r5))
                                  else if c' = CHR ''}'' then Some ([(k, v)], r4)
                                  else None)))))"

text \<open>
  A whole document (\<^verbatim>\<open>checkValid\<close> and the decoder's walk over the text): one
  value, with nothing but white space around it.
\<close>

definition parse_json :: "string \<Rightarrow> json option" where
  "parse_json s =
     (case parse_value (Suc (length s)) s of
        None \<Rightarrow> None
      | Some (v, r) \<Rightarrow> if skip_ws r = [] then Some v else None)"

section \<open>Package encoding/json: Go values\<close>

subsection \<open>Values of type \<^verbatim>\<open>interface{}\<close>\<close>

text \<open>
  The dynamic values \<^verbatim>\<open>json.Unmarshal\<close> stores into an \<^verbatim>\<open>interface{}\<close>:
  \<^verbatim>\<open>nil\<close>, \<^verbatim>\<open>bool\<close>, \<^verbatim>\<open>float64\<close>, \<^verbatim>\<open>string\<close>,
  \<^verbatim>\<open>[]interface{}\<close> and \<^verbatim>\<open>map[string]interface{}\<close>, and \<open>VUnsupported\<close> for a
  value \<^verbatim>\<open>json.Marshal\<close> refuses (a channel, a function). Floating point is not
  modelled: \<open>VFloat n\<close> is the \<^verbatim>\<open>float64\<close> of the integer \<open>n\<close>, exact up to
  \<open>2^53\<close> in magnitude, which Go prints as the decimal digits of \<open>n\<close>; any other
  \<^verbatim>\<open>float64\<close> is \<open>VNumber l\<close>, named by a literal \<open>l\<close> that denotes it, and
  written as that literal. A map is kept as the list of its entries in the order of
  their keys, the order in which the encoder writes them.
\<close>

datatype iface =
    VNil
  | VBool bool
  | VFloat int
  | VNumber string
  | VString string
  | VSlice "iface list"
  | VMap "(string \<times> iface) list"
  | VUnsupported

text \<open>\<^verbatim>\<open>m[k] = v\<close> on a map kept in the order of its keys.\<close>

fun map_set :: "string \<Rightarrow> 'v \<Rightarrow> (string \<times> 'v) list \<Rightarrow> (string \<times> 'v) list" where
  "map_set k v [] = [(k, v)]"
| "map_set k v ((k', v') # m) =
     (if k = k' then (k, v) # m
      else if k < k' then (k, v) # (k', v') # m
      else (k', v') # map_set k v m)"

text \<open>\<^verbatim>\<open>strconv.FormatInt(n, 10)\<close>.\<close>

definition FormatInt :: "int \<Rightarrow> string" where
  "FormatInt n = (if n < 0 then CHR ''-'' # itoa (- n) else itoa n)"

text \<open>
  The number of a literal that is an integer (no fraction, no exponent); the
  literal has passed the scanner.
\<close>

definition int_lit :: "string \<Rightarrow> int option" where
  "int_lit l =
     (case l of
        [] \<Rightarrow> None
      | c # ds \<Rightarrow>
          if c = CHR ''-'' then (if ds \<noteq> [] \<and> list_all isDigit ds then Some (- atoi_digits ds) else None)
          else if list_all isDigit l then Some (atoi_digits l)
          else None)"

text \<open>Encoding: \<open>None\<close> is the \<^verbatim>\<open>UnsupportedTypeError\<close> of the encoder.\<close>

fun enc_iface :: "iface \<Rightarrow> json option"
  and enc_ifaces :: "iface list \<Rightarrow> json list option"
  and enc_members :: "(string \<times> iface) list \<Rightarrow> (string \<times> json) list option" where
  "enc_iface VNil = Some JNull"
| "enc_iface (VBool b) = Some (JBool b)"
| "enc_iface (VFloat n) = Some (JNumber (FormatInt n))"
| "enc_iface (VNumber l) = Some (JNumber l)"
| "enc_iface (VString s) = Some (JString s)"
| "enc_iface (VSlice xs) = (case enc_ifaces xs of None \<Rightarrow> None | Some js \<Rightarrow> Some (JArray js))"
| "enc_iface (VMap m) = (case enc_members m of None \<Rightarrow> None | Some ms \<Rightarrow> Some (JObject ms))"
| "enc_iface VUnsupported = None"
| "enc_ifaces [] = Some []"
| "enc_ifaces (x # xs) =
     (case enc_iface x of
        None \<Rightarrow> None
      | Some j \<Rightarrow> (case enc_ifaces xs of None \<Rightarrow> None | Some js \<Rightarrow> Some (j # js)))"
| "enc_members [] = Some []"
| "enc_members ((k, x) # m) =
     (case enc_iface x of
        None \<Rightarrow> None
      | Some j \<Rightarrow> (case enc_members m of None \<Rightarrow> None | Some ms \<Rightarrow> Some ((k, j) # ms)))"

text \<open>
  Decoding into an \<^verbatim>\<open>interface{}\<close>. In an object a later member replaces an
  earlier one of the same key.
\<close>

definition convertNumber :: "string \<Rightarrow> iface" where
  "convertNumber l =
     (case int_lit l of
        None \<Rightarrow> VNumber l
      | Some n \<Rightarrow> if l \<noteq> ''-0'' \<and> \<bar>n\<bar> \<le> 9007199254740992 then VFloat n else VNumber l)"

fun to_iface :: "json \<Rightarrow> iface"
  and to_ifaces :: "json list \<Rightarrow> iface list"
  and to_members :: "(string \<times> json) list \<Rightarrow> (string \<times> iface) list \<Rightarrow> (string \<times> iface) list" where
  "to_iface JNull = VNil"
| "to_iface (JBool b) = VBool b"
| "to_iface (JNumber l) = convertNumber l"
| "to_iface (JString s) = VString s"
| "to_iface (JArray xs) = VSlice (to_ifaces xs)"
| "to_iface (JObject ms) = VMap (to_members ms [])"
| "to_ifaces [] = []"
| "to_ifaces (x # xs) = to_iface x # to_ifaces xs"
| "to_members [] acc = acc"
| "to_members ((k, v) # ms) acc = to_members ms (map_set k (to_iface v) acc)"

subsection \<open>The struct \<^verbatim>\<open>FormattedTask\<close>\<close>

text \<open>
  \<^verbatim>\<open>type FormattedTask struct\<close> of \<^verbatim>\<open>celery.go\<close>, with its tags:
  \<^verbatim>\<open>task\<close> and \<^verbatim>\<open>id\<close> are always written, the other five carry
  \<^verbatim>\<open>omitempty\<close>.
\<close>

record FormattedTask =
  fTask :: string
  fId :: string
  fArgs :: "string list"
  fKWArgs :: "(string \<times> iface) list"
  fRetries :: int
  fETA :: string
  fExpires :: string

definition zeroFormattedTask :: FormattedTask where
  "zeroFormattedTask =
     \<lparr>fTask = [], fId = [], fArgs = [], fKWArgs = [], fRetries = 0, fETA = [], fExpires = []\<rparr>"

text \<open>
  The object the encoder writes for the struct, field by field in the order of the
  declaration; a field with \<^verbatim>\<open>omitempty\<close> is left out when it is the empty
  string, a slice or map of length 0, or 0.
\<close>

definition FormattedTask_members :: "FormattedTask \<Rightarrow> (string \<times> json) list option" where
  "FormattedTask_members out =
     (case (if fKWArgs out = [] then Some [] else enc_members (fKWArgs out)) of
        None \<Rightarrow> None
      | Some kw \<Rightarrow>
          Some ([(''task'', JString (fTask out)), (''id'', JString (fId out))]
                @ (if fArgs out = [] then [] else [(''args'', JArray (map JString (fArgs out)))])
                @ (if fKWArgs out = [] then [] else [(''kwargs'', JObject kw)])
                @ (if fRetries out = 0 then [] else [(''retries'', JNumber (FormatInt (fRetries out)))])
                @ (if fETA out = [] then [] else [(''eta'', JString (fETA out))])
                @ (if fExpires out = [] then [] else [(''expires'', JString (fExpires out))])))"

text \<open>\<^verbatim>\<open>json.Marshal(out)\<close> for a \<^verbatim>\<open>FormattedTask\<close>.\<close>

definition json_Marshal :: "FormattedTask \<Rightarrow> error + string" where
  "json_Marshal out =
     (case FormattedTask_members out of
        None \<Rightarrow> Inl UnsupportedTypeError
      | Some ms \<Rightarrow> Inr (print_json (JObject ms)))"

subsection \<open>Decoding into a \<^verbatim>\<open>FormattedTask\<close>\<close>

text \<open>
  A key names a field when it is the field's name up to case
  (\<^verbatim>\<open>foldName\<close>: ASCII letters to upper case, and the two runes that fold to an
  ASCII letter, U+017F to \<^verbatim>\<open>S\<close> and U+212A to \<^verbatim>\<open>K\<close>).
\<close>

definition fold1 :: "char \<Rightarrow> char" where
  "fold1 c = (if 97 \<le> byte c \<and> byte c \<le> 122 then char_of (byte c - 32) else c)"

fun foldName :: "string \<Rightarrow> string" where
  "foldName (a # b # c # r) =
     (if a = CHR 0xE2 \<and> b = CHR 0x84 \<and> c = CHR 0xAA then CHR ''K'' # foldName r
      else if a = CHR 0xC5 \<and> b = CHR 0xBF then CHR ''S'' # foldName (c # r)
      else fold1 a # foldName (b # c # r))"
| "foldName [a, b] =
     (if a = CHR 0xC5 \<and> b = CHR 0xBF then ''S'' else [fold1 a, fold1 b])"
| "foldName [a] = [fold1 a]"
| "foldName [] = []"

text \<open>The description of a JSON value in an \<^verbatim>\<open>UnmarshalTypeError\<close>.\<close>

fun kind_of :: "json \<Rightarrow> string" where
  "kind_of JNull = ''null''"
| "kind_of (JBool b) = ''bool''"
| "kind_of (JNumber l) = ''number''"
| "kind_of (JString s) = ''string''"
| "kind_of (JArray xs) = ''array''"
| "kind_of (JObject ms) = ''object''"

text \<open>
  \<^verbatim>\<open>saveError\<close>: the decoder goes on after a value of the wrong type and reports
  the first such error at the end.
\<close>

definition saveError :: "error option \<Rightarrow> error option \<Rightarrow> error option" where
  "saveError saved e = (case saved of None \<Rightarrow> e | Some x \<Rightarrow> Some x)"

text \<open>
  Decoding into a field that holds \<open>cur\<close>. \<^verbatim>\<open>null\<close> leaves a string or an int
  as it is and empties a slice or a map; a value of the wrong type leaves the field
  as it is and is an error.
\<close>

fun dec_string :: "string \<Rightarrow> string \<Rightarrow> json \<Rightarrow> error option \<times> string" where
  "dec_string fld cur (JString s) = (None, s)"
| "dec_string fld cur JNull = (None, cur)"
| "dec_string fld cur v = (Some (UnmarshalTypeError (kind_of v) fld), cur)"

fun dec_int :: "string \<Rightarrow> int \<Rightarrow> json \<Rightarrow> error option \<times> int" where
  "dec_int fld cur (JNumber l) =
     (case int_lit l of
        None \<Rightarrow> (Some (UnmarshalTypeError (''number '' @ l) fld), cur)
      | Some n \<Rightarrow>
          if - 9223372036854775808 \<le> n \<and> n \<le> 9223372036854775807 then (None, n)
          else (Some (UnmarshalTypeError (''number '' @ l) fld), cur))"
| "dec_int fld cur JNull = (None, cur)"
| "dec_int fld cur v = (Some (UnmarshalTypeError (kind_of v) fld), cur)"

fun dec_elems :: "string \<Rightarrow> string list \<Rightarrow> json list \<Rightarrow> error option \<times> string list" where
  "dec_elems fld cur [] = (None, [])"
| "dec_elems fld cur (x # xs) =
     (let (e, s) = dec_string fld (case cur of [] \<Rightarrow> [] | c # cs \<Rightarrow> c) x;
          (e', ss) = dec_elems fld (tl cur) xs
      in (saveError e e', s # ss))"

fun dec_strings :: "string \<Rightarrow> string list \<Rightarrow> json \<Rightarrow> error option \<times> string list" where
  "dec_strings fld cur (JArray xs) = dec_elems fld cur xs"
| "dec_strings fld cur JNull = (None, [])"
| "dec_strings fld cur v = (Some (UnmarshalTypeError (kind_of v) fld), cur)"

fun dec_map :: "string \<Rightarrow> (string \<times> iface) list \<Rightarrow> json \<Rightarrow> error option \<times> (string \<times> iface) list" where
  "dec_map fld cur (JObject ms) = (None, to_members ms cur)"
| "dec_map fld cur JNull = (None, [])"
| "dec_map fld cur v = (Some (UnmarshalTypeError (kind_of v) fld), cur)"

definition decode_field :: "string \<Rightarrow> json \<Rightarrow> FormattedTask \<Rightarrow> error option \<times> FormattedTask" where
  "decode_field k v ft =
     (let f = foldName k in
      if f = ''TASK'' then (let (e, x) = dec_string ''task'' (fTask ft) v in (e, ft\<lparr>fTask := x\<rparr>))
      else if f = ''ID'' then (let (e, x) = dec_string ''id'' (fId ft) v in (e, ft\<lparr>fId := x\<rparr>))
      else if f = ''ARGS'' then (let (e, x) = dec_strings ''args'' (fArgs ft) v in (e, ft\<lparr>fArgs := x\<rparr>))
      else if f = ''KWARGS'' then (let (e, x) = dec_map ''kwargs'' (fKWArgs ft) v in (e, ft\<lparr>fKWArgs := x\<rparr>))
      else if f = ''RETRIES'' then (let (e, x) = dec_int ''retries'' (fRetries ft) v in (e, ft\<lparr>fRetries := x\<rparr>))
      else if f = ''ETA'' then (let (e, x) = dec_string ''eta'' (fETA ft) v in (e, ft\<lparr>fETA := x\<rparr>))
      else if f = ''EXPIRES'' then (let (e, x) = dec_string ''expires'' (fExpires ft) v in (e, ft\<lparr>fExpires := x\<rparr>))
      else (None, ft))"

fun decode_members :: "(string \<times> json) list \<Rightarrow> error option \<times> FormattedTask \<Rightarrow> error option \<times> FormattedTask" where
  "decode_members [] st = st"
| "decode_members ((k, v) # ms) (saved, ft) =
     (let (e, ft') = decode_field k v ft in decode_members ms (saveError saved e, ft'))"

text \<open>
  \<^verbatim>\<open>json.Unmarshal(data, &task)\<close>: a text that is not valid JSON is a
  \<^verbatim>\<open>SyntaxError\<close> and leaves the struct untouched; an object is decoded member by
  member; \<^verbatim>\<open>null\<close> does nothing; any other value is a type error.
\<close>

definition json_Unmarshal :: "string \<Rightarrow> FormattedTask \<Rightarrow> error option \<times> FormattedTask" where
  "json_Unmarshal data ft =
     (case parse_json data of
        None \<Rightarrow> (Some SyntaxError, ft)
      | Some (JObject ms) \<Rightarrow> decode_members ms (None, ft)
      | Some JNull \<Rightarrow> (None, ft)
      | Some v \<Rightarrow> (Some (UnmarshalTypeError (kind_of v) []), ft))"

section \<open>The task model of \<^verbatim>\<open>celery.go\<close>\<close>

record Task =
  Task :: string
  Id :: string
  Args :: "string list"
  KWArgs :: "(string \<times> iface) list"
  Retries :: int
  ETA :: Time
  Expires :: Time

text \<open>The zero value \<^verbatim>\<open>Task{}\<close>.\<close>

definition zeroTask :: Task where
  "zeroTask =
     \<lparr>Task = [], Id = [], Args = [], KWArgs = [], Retries = 0, ETA = zeroTime, Expires = zeroTime\<rparr>"

text \<open>\<^verbatim>\<open>func (t *Task) MarshalJSON() ([]byte, error)\<close>.\<close>

definition MarshalJSON :: "Task \<Rightarrow> error + string" where
  "MarshalJSON t =
     (let out = \<lparr>fTask = Task t, fId = Id t, fArgs = Args t, fKWArgs = KWArgs t,
                 fRetries = Retries t, fETA = [], fExpires = []\<rparr>;
          out = (if \<not> IsZero (ETA t) then out\<lparr>fETA := Format (toUTC (ETA t)) timeFormat\<rparr> else out);
          out = (if \<not> IsZero (Expires t)
                 then out\<lparr>fExpires := Format (toUTC (Expires t)) timeFormat\<rparr> else out)
      in json_Marshal out)"

text \<open>
  \<^verbatim>\<open>func (t *Task) UnmarshalJSON(data []byte) error\<close>: the task the receiver
  points to afterwards, and the error returned. The variable \<^verbatim>\<open>err\<close> is
  assigned three times and returned once.
\<close>

definition UnmarshalJSON :: "Task \<Rightarrow> string \<Rightarrow> Task \<times> error option" where
  "UnmarshalJSON t data =
     (let task = zeroFormattedTask;
          (err, task) = json_Unmarshal data task;
          t = t\<lparr>Task := fTask task\<rparr>;
          t = t\<lparr>Id := fId task\<rparr>;
          t = t\<lparr>Args := fArgs task\<rparr>;
          t = t\<lparr>KWArgs := fKWArgs task\<rparr>;
          t = t\<lparr>Retries := fRetries task\<rparr>;
          (eta, err) = Parse timeFormat (fETA task);
          t = t\<lparr>ETA := eta\<rparr>;
          (expires, err) = Parse timeFormat (fExpires task);
          t = t\<lparr>Expires := expires\<rparr>
      in (t, err))"

section \<open>The transport of \<^verbatim>\<open>celery.go\<close>\<close>

subsection \<open>The AMQP channel\<close>

text \<open>
  The channel of \<^verbatim>\<open>github.com/streadway/amqp\<close> is outside the repository. It is
  modelled by what the code can observe of it: the answers of its calls (a record
  of them, \<open>Channel\<close>) and the calls made, in order, with their arguments (a list
  of events). The events also record what the code sends on the output channel
  \<^verbatim>\<open>messages\<close> and what it logs, so that the order of all effects is kept.
\<close>

record Publishing =
  DeliveryMode :: nat
  Timestamp :: Time
  ContentType :: string
  ContentEncoding :: string
  Body :: string

text \<open>\<^verbatim>\<open>amqp.Persistent\<close>.\<close>

definition Persistent :: nat where
  "Persistent = 2"

record Delivery =
  DeliveryTag :: nat
  DeliveryBody :: string

text \<open>
  A delivery stream (\<^verbatim>\<open><-chan amqp.Delivery\<close>): the deliveries in the order
  they arrive, closed by the broker at some point or never.
\<close>

codatatype deliveries = Closed | Arrives Delivery deliveries

primrec arriving :: "Delivery list \<Rightarrow> deliveries" where
  "arriving [] = Closed"
| "arriving (d # ds) = Arrives d (arriving ds)"

text \<open>
  The calls, with the arguments in the order of the Go signatures:
  \<^verbatim>\<open>Publish(exchange, key, mandatory, immediate, msg)\<close>,
  \<^verbatim>\<open>QueueBind(name, key, exchange, noWait, args)\<close> (the code passes \<^verbatim>\<open>nil\<close>
  for \<open>args\<close>),
  \<^verbatim>\<open>Consume(queue, consumer, autoAck, exclusive, noLocal, noWait, args)\<close> (again
  \<^verbatim>\<open>nil\<close> for \<open>args\<close>) and \<^verbatim>\<open>Ack(tag, multiple)\<close>.
\<close>

datatype event =
    CallPublish string string bool bool Publishing
  | CallQueueBind string string string bool
  | CallConsume string string bool bool bool bool
  | CallAck nat bool
  | Send Task
  | Log error

record Channel =
  publish_result :: "error option"
  bind_result :: "error option"
  consume_result :: "error + deliveries"

subsection \<open>Publish\<close>

text \<open>
  \<^verbatim>\<open>json.Marshal(t)\<close> for a \<^verbatim>\<open>*Task\<close>, which has the method
  \<^verbatim>\<open>MarshalJSON\<close>: the encoder calls it, wraps its error in a
  \<^verbatim>\<open>MarshalerError\<close>, and compacts its output, which is compact already.
\<close>

definition json_Marshal_Task :: "Task \<Rightarrow> error + string" where
  "json_Marshal_Task t =
     (case MarshalJSON t of Inl e \<Rightarrow> Inl (MarshalerError e) | Inr b \<Rightarrow> Inr b)"

text \<open>
  \<^verbatim>\<open>func (t *Task) Publish(ch *amqp.Channel, exchange, key string) error\<close>;
  \<open>now\<close> is what \<^verbatim>\<open>time.Now()\<close> returns. The result is the error returned
  and the events that happened.
\<close>

definition Publish :: "Task \<Rightarrow> Channel \<Rightarrow> Time \<Rightarrow> string \<Rightarrow> string \<Rightarrow> error option \<times> event list" where
  "Publish t ch now exchange key =
     (case json_Marshal_Task t of
        Inl err \<Rightarrow> (Some err, [])
      | Inr body \<Rightarrow>
          (let msg = \<lparr>DeliveryMode = Persistent, Timestamp = now,
                      ContentType = ''application/json'', ContentEncoding = ''utf-8'',
                      Body = body\<rparr>
           in (publish_result ch, [CallPublish exchange key False False msg])))"

subsection \<open>Consume\<close>

text \<open>
  Lines 122 to 131 of \<^verbatim>\<open>Consume\<close>: the bind and the opening of the delivery
  stream, each with its early return.
\<close>

definition Consume_open :: "Channel \<Rightarrow> string \<Rightarrow> string \<Rightarrow> string \<Rightarrow> (error + deliveries) \<times> event list" where
  "Consume_open ch queue exchange key =
     (case bind_result ch of
        Some err \<Rightarrow> (Inl err, [CallQueueBind queue key exchange False, Log err])
      | None \<Rightarrow>
          (case consume_result ch of
             Inl err \<Rightarrow>
               (Inl err,
                [CallQueueBind queue key exchange False,
                 CallConsume queue [] False True False False, Log err])
           | Inr ds \<Rightarrow>
               (Inr ds,
                [CallQueueBind queue key exchange False,
                 CallConsume queue [] False True False False])))"

text \<open>The body of the loop, lines 134 to 137, for one delivery.\<close>

definition Consume_body :: "Delivery \<Rightarrow> event list" where
  "Consume_body msg =
     (let (task, err) = UnmarshalJSON zeroTask (DeliveryBody msg)
      in [Send task, CallAck (DeliveryTag msg) False])"

text \<open>
  The loop \<^verbatim>\<open>for msg := range deliveries\<close>: it ends when the stream is closed
  and does not return while it is not (\<open>None\<close>).
\<close>

partial_function (option) Consume_loop :: "deliveries \<Rightarrow> event list \<Rightarrow> event list option" where
  "Consume_loop ds evs =
     (case ds of
        Closed \<Rightarrow> Some evs
      | Arrives msg ds' \<Rightarrow> Consume_loop ds' (evs @ Consume_body msg))"

text \<open>
  \<^verbatim>\<open>func Consume(ch *amqp.Channel, queue, exchange, key string, messages chan<- Task) error\<close>:
  the error returned and the events that happened, or \<open>None\<close> when the call does
  not return.
\<close>

definition Consume :: "Channel \<Rightarrow> string \<Rightarrow> string \<Rightarrow> string \<Rightarrow> (error option \<times> event list) option" where
  "Consume ch queue exchange key =
     (case Consume_open ch queue exchange key of
        (Inl err, evs) \<Rightarrow> Some (Some err, evs)
      | (Inr ds, evs) \<Rightarrow>
          (case Consume_loop ds evs of None \<Rightarrow> None | Some evs' \<Rightarrow> Some (None, evs')))"

subsection \<open>Reading the events\<close>

text \<open>What was sent on \<^verbatim>\<open>messages\<close>, and the acknowledgments, each in order.\<close>

fun sends :: "event list \<Rightarrow> Task list" where
  "sends [] = []"
| "sends (Send t # evs) = t # sends evs"
| "sends (e # evs) = sends evs"

fun acks :: "event list \<Rightarrow> (nat \<times> bool) list" where
  "acks [] = []"
| "acks (CallAck tag multiple # evs) = (tag, multiple) # acks evs"
| "acks (e # evs) = acks evs"

fun is_bind_or_open :: "event \<Rightarrow> bool" where
  "is_bind_or_open (CallQueueBind q k x w) = True"
| "is_bind_or_open (CallConsume q c a e l w) = True"
| "is_bind_or_open ev = False"

subsection \<open>Channels and deliveries for the examples\<close>

definition ch_ok :: "deliveries \<Rightarrow> Channel" where
  "ch_ok ds = \<lparr>publish_result = None, bind_result = None, consume_result = Inr ds\<rparr>"

definition ch_bind_fails :: Channel where
  "ch_bind_fails =
     \<lparr>publish_result = None, bind_result = Some (BrokerError ''no queue''),
      consume_result = Inr Closed\<rparr>"

definition ch_open_fails :: Channel where
  "ch_open_fails =
     \<lparr>publish_result = None, bind_result = None,
      consume_result = Inl (BrokerError ''channel closed'')\<rparr>"

definition ch_publish_fails :: Channel where
  "ch_publish_fails =
     \<lparr>publish_result = Some (BrokerError ''channel closed''), bind_result = None,
      consume_result = Inr Closed\<rparr>"

definition d1 :: Delivery where
  \<open>d1 = \<lparr>DeliveryTag = 1, DeliveryBody = ''{"task":"a","id":"1"}''\<rparr>\<close>

definition d2 :: Delivery where
  \<open>d2 = \<lparr>DeliveryTag = 2, DeliveryBody = ''{"task":"b","id":"2"}''\<rparr>\<close>

definition d3 :: Delivery where
  \<open>d3 = \<lparr>DeliveryTag = 3, DeliveryBody = ''{"task":"c","id":"3"}''\<rparr>\<close>

text \<open>A stream the broker never closes.\<close>

primcorec forever :: "Delivery \<Rightarrow> deliveries" where
  "forever d = Arrives d (forever d)"

subsection \<open>Tasks and times for the examples\<close>

definition may_1_2023 :: Time where
  "may_1_2023 = \<lparr>Year = 2023, Month = 5, Day = 1, Hour = 12, Minute = 0, Second = 0,
                  Nanosecond = 123456000, Loc = UTC\<rparr>"

definition task_add :: Task where
  "task_add = \<lparr>Task = ''tasks.add'', Id = ''1'', Args = [], KWArgs = [], Retries = 0,
                ETA = zeroTime, Expires = zeroTime\<rparr>"

definition task_unsupported :: Task where
  "task_unsupported = task_add\<lparr>KWArgs := [(''callback'', VUnsupported)]\<rparr>"

definition task_old :: Task where
  "task_old = \<lparr>Task = ''old'', Id = ''7'', Args = [''x''], KWArgs = [], Retries = 2,
               ETA = may_1_2023, Expires = may_1_2023\<rparr>"








subsection \<open>The canonical time pattern\<close>

text \<open>
  The pattern as the specification words it, for comparison with what \<open>Format\<close>
  writes: a year of four digits, month and day of two, \<^verbatim>\<open>T\<close>, hour, minute and
  second of two digits, a period and six digits of fractional seconds.
\<close>

fun fixed_digits :: "nat \<Rightarrow> int \<Rightarrow> string" where
  "fixed_digits 0 n = []"
| "fixed_digits (Suc k) n = fixed_digits k (n div 10) @ [digit_char (n mod 10)]"

definition canonical_seconds :: "Time \<Rightarrow> string" where
  "canonical_seconds t =
     fixed_digits 4 (Year t) @ ''-'' @ fixed_digits 2 (Month t) @ ''-'' @ fixed_digits 2 (Day t)
     @ ''T'' @ fixed_digits 2 (Hour t) @ '':'' @ fixed_digits 2 (Minute t)
     @ '':'' @ fixed_digits 2 (Second t)"

definition canonical_time :: "Time \<Rightarrow> string" where
  "canonical_time t = canonical_seconds t @ ''.'' @ fixed_digits 6 (Nanosecond t div 1000)"


text \<open>The years the pattern can hold.\<close>

definition four_digit_year :: "Time \<Rightarrow> bool" where
  "four_digit_year t = (0 \<le> Year t \<and> Year t \<le> 9999)"


subsection \<open>Values that survive the wire\<close>


text \<open>The number of nested calls \<open>parse_value\<close> needs for the text of a value.\<close>

fun fuel :: "json \<Rightarrow> nat"
  and fuel_elems :: "json list \<Rightarrow> nat"
  and fuel_members :: "(string \<times> json) list \<Rightarrow> nat" where
  "fuel JNull = 1"
| "fuel (JBool b) = 1"
| "fuel (JNumber l) = 1"
| "fuel (JString s) = 1"
| "fuel (JArray xs) = Suc (fuel_elems xs)"
| "fuel (JObject ms) = Suc (fuel_members ms)"
| "fuel_elems [] = 0"
| "fuel_elems (x # xs) = Suc (max (fuel x) (fuel_elems xs))"
| "fuel_members [] = 0"
| "fuel_members ((k, v) # ms) = Suc (max (fuel v) (fuel_members ms))"






text \<open>
  What a successful call of the parser says about its result: the text that is left
  is shorter by at least the number of calls the value needs, and every call with
  at least that bound gives the same result.
\<close>

definition value_parsed :: "string \<Rightarrow> json \<Rightarrow> string \<Rightarrow> bool" where
  "value_parsed s v r =
     (length r + fuel v \<le> length s \<and> (\<forall>n. fuel v \<le> n \<longrightarrow> parse_value n s = Some (v, r)))"

definition elems_parsed :: "string \<Rightarrow> json list \<Rightarrow> string \<Rightarrow> bool" where
  "elems_parsed s xs r =
     (length r + fuel_elems xs \<le> length s
      \<and> (\<forall>n. fuel_elems xs \<le> n \<longrightarrow> parse_elems n s = Some (xs, r)))"

definition members_parsed :: "string \<Rightarrow> (string \<times> json) list \<Rightarrow> string \<Rightarrow> bool" where
  "members_parsed s ms r =
     (length r + fuel_members ms \<le> length s
      \<and> (\<forall>n. fuel_members ms \<le> n \<longrightarrow> parse_members n s = Some (ms, r)))"

text \<open>A stream that begins with the given deliveries and goes on as the given stream.\<close>

primrec arriving_then :: "Delivery list \<Rightarrow> deliveries \<Rightarrow> deliveries" where
  "arriving_then [] rest = rest"
| "arriving_then (d # ds) rest = Arrives d (arriving_then ds rest)"

section \<open>Properties of Format and Parse\<close>

subsection \<open>Digits\<close>




lemma digit_val_digit_char: "0 \<le> d \<Longrightarrow> d < 10 \<Longrightarrow> digit_val (digit_char d) = d"
  by (simp add: digit_val_def digit_char_def of_char_of)

lemma isDigit_digit_char: "0 \<le> d \<Longrightarrow> d < 10 \<Longrightarrow> isDigit (digit_char d)"
  by (simp add: isDigit_def digit_char_def of_char_of)




lemma digit_char_not_period: "0 \<le> d \<Longrightarrow> d < 10 \<Longrightarrow> digit_char d \<noteq> CHR ''.''"
proof
  assume a: "0 \<le> d" "d < 10" "digit_char d = CHR ''.''"
  have "\<not> isDigit (CHR ''.'')" by code_simp
  with isDigit_digit_char[OF a(1,2)] a(3) show False by simp
qed

lemma length_fixed_digits [simp]: "length (fixed_digits k n) = k"
  by (induction k arbitrary: n) simp_all


lemma all_digits_fixed: "list_all isDigit (fixed_digits k n)"
  by (induction k arbitrary: n) (simp_all add: isDigit_digit_char)






lemma atoi_Nil [simp]: "atoi_digits [] = 0"
  by (simp add: atoi_digits_def)

lemma atoi_snoc: "atoi_digits (s @ [c]) = 10 * atoi_digits s + digit_val c"
  by (simp add: atoi_digits_def)

lemma atoi_fixed: "0 \<le> n \<Longrightarrow> n < 10 ^ k \<Longrightarrow> atoi_digits (fixed_digits k n) = n"
proof (induction k arbitrary: n)
  case 0
  then show ?case by simp
next
  case (Suc k)
  from Suc.prems have "n div 10 < 10 ^ k" "0 \<le> n div 10" by auto
  with Suc.IH have "atoi_digits (fixed_digits k (n div 10)) = n div 10" by blast
  then show ?case by (simp add: atoi_snoc digit_val_digit_char)
qed





subsection \<open>Trailing zeros\<close>


lemma strip_zeros_last:
  "rev (dropWhile (\<lambda>c. c = CHR ''0'') (rev ds)) \<noteq> [] \<Longrightarrow>
   last (rev (dropWhile (\<lambda>c. c = CHR ''0'') (rev ds))) \<noteq> CHR ''0''"
  by (metis (mono_tags, lifting) hd_dropWhile last_rev rev_is_Nil_conv)


subsection \<open>The fraction of a second\<close>









subsection \<open>Format and the canonical pattern\<close>





subsection \<open>Parse after Format\<close>

lemma skip_prefix_1: "skip_prefix [c] (c # r) = Some r"
  by simp

lemma parse_year:
  assumes "0 \<le> y" "y \<le> 9999"
  shows "parse_chunks (stdLongYear # cs) (fixed_digits 4 y @ r) t
           = parse_chunks cs r (t\<lparr>Year := y\<rparr>)"
  using assms by (simp add: all_digits_fixed atoi_fixed)


section \<open>Properties of the JSON text\<close>

subsection \<open>String literals\<close>












lemma prepend_None [simp]: "prepend p None = None"
  by (simp add: prepend_def)













subsection \<open>Number literals\<close>












subsection \<open>Reading what was written\<close>












subsection \<open>The bound on nested calls is never what makes the parser fail\<close>

lemma length_skip_ws: "length (skip_ws s) \<le> length s"
  by (simp add: skip_ws_def length_dropWhile_le)

lemma prepend_SomeD: "prepend p x = Some (str, r) \<Longrightarrow> \<exists>str'. x = Some (str', r)"
  by (cases x) (auto simp: prepend_def)

lemma string_lit_shorter: "string_lit s = Some (str, r) \<Longrightarrow> length r < length s"
proof (induction "length s" arbitrary: s str rule: less_induct)
  case less
  have key: "length r < n" if "string_lit sub = Some (str', r)" "length sub < n" "n \<le> length s"
    for sub str' n
    using less.hyps[of sub str'] that by simp
  show ?case
  proof (cases s)
    case Nil
    with less.prems show ?thesis by (simp add: string_lit.simps)
  next
    case (Cons c cs)
    from less.prems show ?thesis
      unfolding Cons
      apply (subst (asm) string_lit.simps)
      apply (simp split: if_splits list.splits option.splits)
              apply (auto dest!: prepend_SomeD)
              apply (erule key, simp, simp add: Cons)+
      done
  qed
qed

lemma scan_int_shorter: "scan_int s = Some (i, r) \<Longrightarrow> length r < length s"
  by (cases s) (auto simp: scan_int_def length_dropWhile_le less_Suc_eq_le split: if_splits)

lemma scan_digits1_shorter: "scan_digits1 s = Some (i, r) \<Longrightarrow> length r \<le> length s"
  by (cases s) (auto simp: scan_digits1_def length_dropWhile_le le_SucI split: if_splits)

lemma scan_frac_shorter: "scan_frac s = Some (f, r) \<Longrightarrow> length r \<le> length s"
  by (cases s; cases "tl s")
     (auto simp: scan_frac_def length_dropWhile_le le_SucI split: if_splits)

lemma scan_exp_shorter: "scan_exp s = Some (e, r) \<Longrightarrow> length r \<le> length s"
  by (cases s; cases "tl s")
     (auto simp: scan_exp_def le_SucI split: if_splits option.splits
           dest!: scan_digits1_shorter)

lemma scan_number_shorter: "scan_number s = Some (l, r) \<Longrightarrow> length r < length s"
  by (cases s)
     (auto simp: scan_number_def split: if_splits option.splits
           dest!: scan_int_shorter scan_frac_shorter scan_exp_shorter)


lemma all_ge_Suc: "(\<forall>n. Suc k \<le> n \<longrightarrow> P n) = (\<forall>n. k \<le> n \<longrightarrow> P (Suc n))"
  by (metis Suc_le_D Suc_le_mono)

lemma skip_ws_Cons_length: "skip_ws s = c # r \<Longrightarrow> Suc (length r) \<le> length s"
  using length_skip_ws[of s] by simp

lemma parse_value_step:
  assumes IHe: "\<And>s xs r. parse_elems m s = Some (xs, r) \<Longrightarrow> elems_parsed s xs r"
    and IHm: "\<And>s ms r. parse_members m s = Some (ms, r) \<Longrightarrow> members_parsed s ms r"
    and p: "parse_value (Suc m) s = Some (v, r)"
  shows "value_parsed s v r"
proof -
  from p obtain c r0 where sw: "skip_ws s = c # r0" by (auto split: list.splits)
  note l0 = skip_ws_Cons_length[OF sw]
  show ?thesis
  proof (cases "c = CHR ''{''")
    case True
    with p sw obtain c' r' where sw2: "skip_ws r0 = c' # r'" by (auto split: list.splits)
    note l1 = skip_ws_Cons_length[OF sw2]
    show ?thesis
    proof (cases "c' = CHR ''}''")
      case T2: True
      with p sw sw2 True have "v = JObject []" "r = r'" by auto
      then show ?thesis using sw sw2 True T2 l0 l1
        by (auto simp: value_parsed_def all_ge_Suc)
    next
      case F2: False
      with p sw sw2 True obtain ms where pm: "parse_members m (c' # r') = Some (ms, r)"
        and v: "v = JObject ms" by (auto split: option.splits)
      from IHm[OF pm] show ?thesis using sw sw2 True F2 l0 l1 v
        by (auto simp: value_parsed_def members_parsed_def all_ge_Suc)
    qed
  next
    case nobj: False
    show ?thesis
    proof (cases "c = CHR ''[''")
      case True
      with p sw nobj obtain c' r' where sw2: "skip_ws r0 = c' # r'" by (auto split: list.splits)
      note l1 = skip_ws_Cons_length[OF sw2]
      show ?thesis
      proof (cases "c' = CHR '']''")
        case T2: True
        with p sw sw2 True have "v = JArray []" "r = r'" by auto
        then show ?thesis using sw sw2 True T2 l0 l1
          by (auto simp: value_parsed_def all_ge_Suc)
      next
        case F2: False
        with p sw sw2 True obtain xs where pe: "parse_elems m (c' # r') = Some (xs, r)"
          and v: "v = JArray xs" by (auto split: option.splits)
        from IHe[OF pe] show ?thesis using sw sw2 True F2 l0 l1 v
          by (auto simp: value_parsed_def elems_parsed_def all_ge_Suc)
      qed
    next
      case narr: False
      show ?thesis
      proof (cases "c = dq")
        case True
        with p sw nobj narr obtain str where sl: "string_lit r0 = Some (str, r)"
          and v: "v = JString str" by (auto split: option.splits)
        from string_lit_shorter[OF sl] show ?thesis using sw True sl v l0
          by (auto simp: value_parsed_def all_ge_Suc)
      next
        case nstr: False
        show ?thesis
        proof (cases "c = CHR ''t'' \<or> c = CHR ''f'' \<or> c = CHR ''n''")
          case True
          then consider "c = CHR ''t''" | "c = CHR ''f''" | "c = CHR ''n''" by auto
          then have "length r \<le> length r0 \<and> fuel v = Suc 0
            \<and> (\<forall>n. parse_value (Suc n) s = Some (v, r))"
          proof cases
            case 1
            with p sw show ?thesis by (auto split: if_splits)
          next
            case 2
            with p sw show ?thesis by (auto split: if_splits)
          next
            case 3
            with p sw show ?thesis by (auto split: if_splits)
          qed
          then show ?thesis using l0
            by (auto simp: value_parsed_def all_ge_Suc simp del: parse_value.simps)
        next
          case False
          with p sw nobj narr nstr obtain l where sn: "scan_number (c # r0) = Some (l, r)"
            and v: "v = JNumber l" by (auto split: option.splits)
          from scan_number_shorter[OF sn] show ?thesis using sw False nobj narr nstr sn v l0
            by (auto simp: value_parsed_def all_ge_Suc)
        qed
      qed
    qed
  qed
qed

lemma parse_elems_step:
  assumes IHv: "\<And>s v r. parse_value m s = Some (v, r) \<Longrightarrow> value_parsed s v r"
    and IHe: "\<And>s xs r. parse_elems m s = Some (xs, r) \<Longrightarrow> elems_parsed s xs r"
    and p: "parse_elems (Suc m) s = Some (xs, r)"
  shows "elems_parsed s xs r"
proof -
  from p obtain x r1 where pv: "parse_value m s = Some (x, r1)" by (auto split: option.splits)
  from IHv[OF pv] have vp: "length r1 + fuel x \<le> length s"
    "\<And>n. fuel x \<le> n \<Longrightarrow> parse_value n s = Some (x, r1)"
    by (simp_all add: value_parsed_def)
  from p pv obtain c r2 where sw: "skip_ws r1 = c # r2" by (auto split: list.splits)
  note l = skip_ws_Cons_length[OF sw]
  show ?thesis
  proof (cases "c = CHR '',''")
    case True
    with p pv sw obtain xs' where pe: "parse_elems m r2 = Some (xs', r)" and xs: "xs = x # xs'"
      by (auto split: option.splits)
    from IHe[OF pe] have ep: "length r + fuel_elems xs' \<le> length r2"
      "\<And>n. fuel_elems xs' \<le> n \<Longrightarrow> parse_elems n r2 = Some (xs', r)"
      by (simp_all add: elems_parsed_def)
    show ?thesis using vp ep sw True l xs
      by (auto simp: elems_parsed_def all_ge_Suc)
  next
    case False
    with p pv sw have "c = CHR '']''" "xs = [x]" "r = r2" by (auto split: if_splits)
    then show ?thesis using vp sw l by (auto simp: elems_parsed_def all_ge_Suc)
  qed
qed

lemma parse_members_step:
  assumes IHv: "\<And>s v r. parse_value m s = Some (v, r) \<Longrightarrow> value_parsed s v r"
    and IHm: "\<And>s ms r. parse_members m s = Some (ms, r) \<Longrightarrow> members_parsed s ms r"
    and p: "parse_members (Suc m) s = Some (ms, r)"
  shows "members_parsed s ms r"
proof -
  from p obtain q r0 where sw: "skip_ws s = q # r0" by (auto split: list.splits)
  with p have q: "q = dq" by (auto split: if_splits)
  from p sw q obtain k r1 where sl: "string_lit r0 = Some (k, r1)" by (auto split: option.splits)
  from p sw q sl obtain c r2 where sw2: "skip_ws r1 = c # r2" by (auto split: list.splits)
  with p sw q sl have c: "c = CHR '':''" by (auto split: if_splits)
  from p sw q sl sw2 c obtain v r3 where pv: "parse_value m r2 = Some (v, r3)"
    by (auto split: option.splits)
  from p sw q sl sw2 c pv obtain c' r4 where sw3: "skip_ws r3 = c' # r4"
    by (auto split: list.splits)
  from IHv[OF pv] have vp: "length r3 + fuel v \<le> length r2"
    "\<And>n. fuel v \<le> n \<Longrightarrow> parse_value n r2 = Some (v, r3)"
    by (simp_all add: value_parsed_def)
  note l0 = skip_ws_Cons_length[OF sw] and l1 = string_lit_shorter[OF sl]
    and l2 = skip_ws_Cons_length[OF sw2] and l3 = skip_ws_Cons_length[OF sw3]
  show ?thesis
  proof (cases "c' = CHR '',''")
    case True
    with p sw q sl sw2 c pv sw3 obtain ms' where pm: "parse_members m r4 = Some (ms', r)"
      and ms: "ms = (k, v) # ms'" by (auto split: option.splits)
    from IHm[OF pm] have mp: "length r + fuel_members ms' \<le> length r4"
      "\<And>n. fuel_members ms' \<le> n \<Longrightarrow> parse_members n r4 = Some (ms', r)"
      by (simp_all add: members_parsed_def)
    show ?thesis using vp mp sw q sl sw2 c sw3 True l0 l1 l2 l3 ms
      by (auto simp: members_parsed_def all_ge_Suc)
  next
    case False
    with p sw q sl sw2 c pv sw3 have "c' = CHR ''}''" "ms = [(k, v)]" "r = r4"
      by (auto split: if_splits)
    then show ?thesis using vp sw q sl sw2 c sw3 l0 l1 l2 l3
      by (auto simp: members_parsed_def all_ge_Suc)
  qed
qed

lemma parse_fuel_all:
  "(\<forall>s v r. parse_value m s = Some (v, r) \<longrightarrow> value_parsed s v r)
   \<and> (\<forall>s xs r. parse_elems m s = Some (xs, r) \<longrightarrow> elems_parsed s xs r)
   \<and> (\<forall>s ms r. parse_members m s = Some (ms, r) \<longrightarrow> members_parsed s ms r)"
proof (induction m)
  case 0
  show ?case by simp
next
  case (Suc m)
  then have v: "\<And>s v r. parse_value m s = Some (v, r) \<Longrightarrow> value_parsed s v r"
    and e: "\<And>s xs r. parse_elems m s = Some (xs, r) \<Longrightarrow> elems_parsed s xs r"
    and mm: "\<And>s ms r. parse_members m s = Some (ms, r) \<Longrightarrow> members_parsed s ms r"
    by blast+
  show ?case
    using parse_value_step[OF e mm] parse_elems_step[OF v e] parse_members_step[OF v mm]
    by blast
qed

text \<open>
  A parse that succeeds with some bound succeeds with the bound \<open>parse_json\<close> uses:
  when \<open>parse_json\<close> refuses a text, no bound would have made it accept.
\<close>

lemma parse_value_any_fuel:
  assumes "parse_value m s = Some (v, r)"
  shows "parse_value (Suc (length s)) s = Some (v, r)"
proof -
  from parse_fuel_all[of m] assms have "value_parsed s v r" by blast
  then have l: "length r + fuel v \<le> length s"
    and a: "\<And>n. fuel v \<le> n \<Longrightarrow> parse_value n s = Some (v, r)"
    by (simp_all add: value_parsed_def)
  from l have "fuel v \<le> Suc (length s)" by simp
  then show ?thesis by (rule a)
qed

lemma parse_json_None_any_fuel:
  assumes "parse_json s = None" "parse_value m s = Some (v, r)"
  shows "skip_ws r \<noteq> []"
  using assms parse_value_any_fuel[OF assms(2)]
  by (auto simp: parse_json_def split: if_splits)

section \<open>Properties of the transport\<close>

subsection \<open>The loop\<close>

lemma Consume_loop_Closed: "Consume_loop Closed evs = Some evs"
  by (subst Consume_loop.simps) simp

lemma Consume_loop_Arrives:
  "Consume_loop (Arrives msg ds) evs = Consume_loop ds (evs @ Consume_body msg)"
  by (subst Consume_loop.simps) simp

lemma Consume_loop_arriving:
  "Consume_loop (arriving xs) evs = Some (evs @ concat (map Consume_body xs))"
  by (induction xs arbitrary: evs) (simp_all add: Consume_loop_Closed Consume_loop_Arrives)

text \<open>The loop returns only on a stream that is closed after finitely many deliveries.\<close>

lemma Consume_loop_returns:
  assumes "Consume_loop ds evs = Some evs'"
  shows "\<exists>xs. ds = arriving xs"
proof (rule Consume_loop.raw_induct[where P = "\<lambda>ds evs evs'. \<exists>xs. ds = arriving xs", OF _ assms])
  fix loop :: "deliveries \<Rightarrow> event list \<Rightarrow> event list option" and ds evs evs'
  assume IH: "\<And>ds evs evs'. loop ds evs = Some evs' \<Longrightarrow> \<exists>xs. ds = arriving xs"
    and eq: "(case ds of Closed \<Rightarrow> Some evs
              | Arrives msg ds' \<Rightarrow> loop ds' (evs @ Consume_body msg)) = Some evs'"
  show "\<exists>xs. ds = arriving xs"
  proof (cases ds)
    case Closed
    then have "ds = arriving []" by simp
    then show ?thesis by blast
  next
    case (Arrives msg ds')
    with eq have step: "loop ds' (evs @ Consume_body msg) = Some evs'" by simp
    from IH[OF step] obtain xs where "ds' = arriving xs" by blast
    with Arrives have "ds = arriving (msg # xs)" by simp
    then show ?thesis by blast
  qed
qed

lemma Consume_loop_result:
  assumes "Consume_loop ds evs = Some evs'"
  shows "\<exists>xs. ds = arriving xs \<and> evs' = evs @ concat (map Consume_body xs)"
proof -
  from Consume_loop_returns[OF assms] obtain xs where xs: "ds = arriving xs" by blast
  with assms have "evs' = evs @ concat (map Consume_body xs)"
    by (simp add: Consume_loop_arriving)
  with xs show ?thesis by blast
qed

lemma forever_not_arriving: "forever d \<noteq> arriving xs"
proof (induction xs)
  case Nil
  show ?case by (subst forever.code) simp
next
  case (Cons x xs)
  then show ?case by (subst forever.code) simp
qed

lemma sends_append: "sends (xs @ ys) = sends xs @ sends ys"
  by (induction xs rule: sends.induct) simp_all

lemma acks_append: "acks (xs @ ys) = acks xs @ acks ys"
  by (induction xs rule: acks.induct) simp_all

lemma sends_body: "sends (Consume_body msg) = [fst (UnmarshalJSON zeroTask (DeliveryBody msg))]"
  by (simp add: Consume_body_def split: prod.splits)

lemma acks_body: "acks (Consume_body msg) = [(DeliveryTag msg, False)]"
  by (simp add: Consume_body_def split: prod.splits)

lemma sends_bodies:
  "sends (concat (map Consume_body ds))
     = map (\<lambda>msg. fst (UnmarshalJSON zeroTask (DeliveryBody msg))) ds"
  by (induction ds) (simp_all add: sends_append sends_body)

lemma acks_bodies:
  "acks (concat (map Consume_body ds)) = map (\<lambda>msg. (DeliveryTag msg, False)) ds"
  by (induction ds) (simp_all add: acks_append acks_body)

lemma no_bind_or_open_bodies: "\<not> list_ex is_bind_or_open (concat (map Consume_body ds))"
  by (induction ds) (simp_all add: Consume_body_def split: prod.splits)

lemma decode_d1:
  "Task (fst (UnmarshalJSON zeroTask (DeliveryBody d1))) = ''a''"
  by code_simp

lemma decode_d2:
  "Task (fst (UnmarshalJSON zeroTask (DeliveryBody d2))) = ''b''"
  by code_simp

lemma decode_d3:
  "Task (fst (UnmarshalJSON zeroTask (DeliveryBody d3))) = ''c''"
  by code_simp

text \<open>
  A stream that has not been closed yet: the deliveries that did arrive are handled one
  after the other, in their order, whatever follows them.
\<close>

lemma Consume_loop_prefix:
  "Consume_loop (arriving_then xs rest) evs = Consume_loop rest (evs @ concat (map Consume_body xs))"
  by (induction xs arbitrary: evs) (simp_all add: Consume_loop_Arrives)

subsection \<open>Consume: the bind and the opening of the stream\<close>

text \<open>
  C4, as the code has it. With a bind that succeeds, \<^verbatim>\<open>Consume\<close> binds the queue
  to the exchange once, with the given routing key, and then opens the delivery
  stream of the queue once, with an empty consumer tag, \<open>autoAck\<close> false (the
  acknowledgment is manual) and \<open>exclusive\<close> true: the consumption is exclusive.
  No other bind or opening follows, whether the call returns an error or returns
  after the stream was closed.
\<close>

theorem Consume_binds_once_then_opens_exclusive:
  assumes "bind_result ch = None"
  shows "(\<exists>rest. snd (Consume_open ch queue exchange key)
              = CallQueueBind queue key exchange False
                # CallConsume queue [] False True False False # rest
            \<and> \<not> list_ex is_bind_or_open rest)
       \<and> (\<forall>r evs. Consume ch queue exchange key = Some (r, evs) \<longrightarrow>
            (\<exists>rest. evs = CallQueueBind queue key exchange False
                            # CallConsume queue [] False True False False # rest
                   \<and> \<not> list_ex is_bind_or_open rest))"
proof (intro conjI allI impI)
  show "\<exists>rest. snd (Consume_open ch queue exchange key)
              = CallQueueBind queue key exchange False
                # CallConsume queue [] False True False False # rest
            \<and> \<not> list_ex is_bind_or_open rest"
    using assms by (cases "consume_result ch") (simp_all add: Consume_open_def)
next
  fix r evs
  assume ret: "Consume ch queue exchange key = Some (r, evs)"
  show "\<exists>rest. evs = CallQueueBind queue key exchange False
                      # CallConsume queue [] False True False False # rest
              \<and> \<not> list_ex is_bind_or_open rest"
  proof (cases "consume_result ch")
    case (Inl err)
    with assms ret show ?thesis by (auto simp: Consume_def Consume_open_def)
  next
    case (Inr ds)
    with assms ret have
      "Consume_loop ds [CallQueueBind queue key exchange False,
                        CallConsume queue [] False True False False] = Some evs"
      by (auto simp: Consume_def Consume_open_def split: option.splits)
    from Consume_loop_result[OF this] obtain xs where
      "evs = [CallQueueBind queue key exchange False,
              CallConsume queue [] False True False False] @ concat (map Consume_body xs)"
      by blast
    then show ?thesis by (simp add: no_bind_or_open_bodies)
  qed
qed

theorem Consume_binds_once_then_opens_exclusive_witness:
  "bind_result (ch_ok (arriving [d1])) = None
   \<and> snd (Consume_open (ch_ok (arriving [d1])) ''celery'' [] ''celery'')
       = [CallQueueBind ''celery'' ''celery'' [] False,
          CallConsume ''celery'' [] False True False False]
   \<and> (\<exists>r rest. Consume (ch_ok (arriving [d1])) ''celery'' [] ''celery''
          = Some (r, CallQueueBind ''celery'' ''celery'' [] False
                     # CallConsume ''celery'' [] False True False False # rest)
        \<and> \<not> list_ex is_bind_or_open rest)"
proof -
  have b: "bind_result (ch_ok (arriving [d1])) = None" by (simp add: ch_ok_def)
  note t = Consume_binds_once_then_opens_exclusive
             [OF b, where queue = "''celery''" and exchange = "[]" and key = "''celery''"]
  have o: "snd (Consume_open (ch_ok (arriving [d1])) ''celery'' [] ''celery'')
       = [CallQueueBind ''celery'' ''celery'' [] False,
          CallConsume ''celery'' [] False True False False]"
    by (simp add: Consume_open_def ch_ok_def)
  have "Consume (ch_ok (arriving [d1])) ''celery'' [] ''celery''
          = Some (None, [CallQueueBind ''celery'' ''celery'' [] False,
                         CallConsume ''celery'' [] False True False False]
                        @ concat (map Consume_body [d1]))"
    by (simp add: Consume_def Consume_open_def ch_ok_def Consume_loop_arriving del: arriving.simps)
  with t obtain rest where
    "Consume (ch_ok (arriving [d1])) ''celery'' [] ''celery''
          = Some (None, CallQueueBind ''celery'' ''celery'' [] False
                     # CallConsume ''celery'' [] False True False False # rest)"
    and "\<not> list_ex is_bind_or_open rest"
    by auto
  with b o show ?thesis by blast
qed

text \<open>
  C4 as the specification states it asks for a consumption that is not exclusive.
  The code passes \<^verbatim>\<open>true\<close> in the position of \<open>exclusive\<close>
  (\<^verbatim>\<open>ch.Consume(queue, "", false, true, false, false, nil)\<close>): the stream is
  opened exclusive, and no call opens it otherwise.
\<close>

theorem Consume_opens_exclusive_counterexample:
  "CallConsume ''celery'' [] False True False False
     \<in> set (snd (Consume_open (ch_ok Closed) ''celery'' [] ''celery''))
   \<and> \<not> (\<exists>consumer autoAck noLocal noWait.
          CallConsume ''celery'' consumer autoAck False noLocal noWait
            \<in> set (snd (Consume_open (ch_ok Closed) ''celery'' [] ''celery'')))"
  by (simp add: Consume_open_def ch_ok_def)

subsection \<open>Consume: the order of the tasks and of the acknowledgments\<close>

text \<open>
  C7. For every finite sequence of deliveries after which the stream is closed,
  \<^verbatim>\<open>Consume\<close> returns, and what happened after the bind and the opening is, for
  each delivery in the order of arrival, the sending of the task decoded from its
  body and then the acknowledgment of its tag alone (\<open>multiple\<close> false). So the
  tasks are sent in the order of the deliveries, the acknowledgments are in the
  same order, each after the sending of its task, and there are as many
  acknowledgments as deliveries.
\<close>

theorem Consume_sends_and_acks_in_order:
  assumes "bind_result ch = None" and "consume_result ch = Inr (arriving ds)"
  shows "\<exists>evs. Consume ch queue exchange key = Some (None, evs)
     \<and> evs = [CallQueueBind queue key exchange False, CallConsume queue [] False True False False]
             @ concat (map (\<lambda>msg. [Send (fst (UnmarshalJSON zeroTask (DeliveryBody msg))),
                                   CallAck (DeliveryTag msg) False]) ds)
     \<and> sends evs = map (\<lambda>msg. fst (UnmarshalJSON zeroTask (DeliveryBody msg))) ds
     \<and> acks evs = map (\<lambda>msg. (DeliveryTag msg, False)) ds
     \<and> length (acks evs) = length ds"
proof -
  have body: "Consume_body = (\<lambda>msg. [Send (fst (UnmarshalJSON zeroTask (DeliveryBody msg))),
                                   CallAck (DeliveryTag msg) False])"
    by (rule ext) (simp add: Consume_body_def split: prod.splits)
  have "Consume ch queue exchange key =
      Some (None, [CallQueueBind queue key exchange False, CallConsume queue [] False True False False]
                  @ concat (map Consume_body ds))"
    using assms by (simp add: Consume_def Consume_open_def Consume_loop_arriving)
  moreover have "sends ([CallQueueBind queue key exchange False, CallConsume queue [] False True False False]
                  @ concat (map Consume_body ds))
                 = map (\<lambda>msg. fst (UnmarshalJSON zeroTask (DeliveryBody msg))) ds"
    by (simp add: sends_bodies)
  moreover have "acks ([CallQueueBind queue key exchange False, CallConsume queue [] False True False False]
                  @ concat (map Consume_body ds)) = map (\<lambda>msg. (DeliveryTag msg, False)) ds"
    by (simp add: acks_bodies)
  ultimately show ?thesis by (simp add: body)
qed

theorem Consume_sends_and_acks_in_order_witness:
  "bind_result (ch_ok (arriving [d1, d2, d3])) = None
   \<and> consume_result (ch_ok (arriving [d1, d2, d3])) = Inr (arriving [d1, d2, d3])
   \<and> (\<exists>evs. Consume (ch_ok (arriving [d1, d2, d3])) ''celery'' [] ''celery'' = Some (None, evs)
        \<and> map Task (sends evs) = [''a'', ''b'', ''c'']
        \<and> acks evs = [(1, False), (2, False), (3, False)])"
proof -
  have b: "bind_result (ch_ok (arriving [d1, d2, d3])) = None"
    and c: "consume_result (ch_ok (arriving [d1, d2, d3])) = Inr (arriving [d1, d2, d3])"
    by (simp_all add: ch_ok_def)
  from Consume_sends_and_acks_in_order
         [OF b c, where queue = "''celery''" and exchange = "[]" and key = "''celery''"]
  obtain evs where
    r: "Consume (ch_ok (arriving [d1, d2, d3])) ''celery'' [] ''celery'' = Some (None, evs)"
    and s: "sends evs = map (\<lambda>msg. fst (UnmarshalJSON zeroTask (DeliveryBody msg))) [d1, d2, d3]"
    and a: "acks evs = map (\<lambda>msg. (DeliveryTag msg, False)) [d1, d2, d3]"
    by blast
  from s have s': "map Task (sends evs) = [''a'', ''b'', ''c'']"
    by (simp add: decode_d1 decode_d2 decode_d3)
  from a have a': "acks evs = [(1, False), (2, False), (3, False)]"
    by (simp add: d1_def d2_def d3_def)
  show ?thesis
    by (intro conjI exI[of _ evs]) (rule b c r s' a')+
qed

subsection \<open>Consume: how it returns\<close>

text \<open>
  C8. When the bind fails, \<^verbatim>\<open>Consume\<close> returns that error; nothing happened but
  the bind and the log line: the stream was not opened and nothing was consumed.
  When the bind succeeds and the opening of the stream fails, it returns that
  error, and nothing was consumed. Otherwise \<^verbatim>\<open>Consume\<close> returns exactly when
  the stream is closed after finitely many deliveries, and what it returns then is
  \<^verbatim>\<open>nil\<close>.
\<close>

theorem Consume_returns:
  "(\<forall>err. bind_result ch = Some err \<longrightarrow>
      Consume ch queue exchange key
        = Some (Some err, [CallQueueBind queue key exchange False, Log err]))
   \<and> (\<forall>err. bind_result ch = None \<and> consume_result ch = Inl err \<longrightarrow>
      Consume ch queue exchange key =
        Some (Some err, [CallQueueBind queue key exchange False,
                         CallConsume queue [] False True False False, Log err]))
   \<and> (\<forall>ds. bind_result ch = None \<and> consume_result ch = Inr ds \<longrightarrow>
        ((\<exists>r evs. Consume ch queue exchange key = Some (r, evs)) = (\<exists>xs. ds = arriving xs))
        \<and> (\<forall>r evs. Consume ch queue exchange key = Some (r, evs) \<longrightarrow> r = None))"
proof (intro conjI allI impI)
  fix err assume "bind_result ch = Some err"
  then show "Consume ch queue exchange key
               = Some (Some err, [CallQueueBind queue key exchange False, Log err])"
    by (simp add: Consume_def Consume_open_def)
next
  fix err assume "bind_result ch = None \<and> consume_result ch = Inl err"
  then show "Consume ch queue exchange key =
        Some (Some err, [CallQueueBind queue key exchange False,
                         CallConsume queue [] False True False False, Log err])"
    by (simp add: Consume_def Consume_open_def)
next
  fix ds assume a: "bind_result ch = None \<and> consume_result ch = Inr ds"
  show "(\<exists>r evs. Consume ch queue exchange key = Some (r, evs)) = (\<exists>xs. ds = arriving xs)"
  proof
    assume "\<exists>r evs. Consume ch queue exchange key = Some (r, evs)"
    then obtain r evs where "Consume ch queue exchange key = Some (r, evs)" by blast
    with a obtain evs0 where "Consume_loop ds evs0 = Some evs"
      by (auto simp: Consume_def Consume_open_def split: option.splits)
    then show "\<exists>xs. ds = arriving xs" by (rule Consume_loop_returns)
  next
    assume "\<exists>xs. ds = arriving xs"
    then obtain xs where "ds = arriving xs" by blast
    with a show "\<exists>r evs. Consume ch queue exchange key = Some (r, evs)"
      by (simp add: Consume_def Consume_open_def Consume_loop_arriving)
  qed
next
  fix ds r evs
  assume "bind_result ch = None \<and> consume_result ch = Inr ds"
    and "Consume ch queue exchange key = Some (r, evs)"
  then show "r = None"
    by (auto simp: Consume_def Consume_open_def split: option.splits)
qed

theorem Consume_returns_witness:
  "Consume ch_bind_fails ''celery'' [] ''celery''
     = Some (Some (BrokerError ''no queue''),
             [CallQueueBind ''celery'' ''celery'' [] False, Log (BrokerError ''no queue'')])
   \<and> Consume ch_open_fails ''celery'' [] ''celery''
     = Some (Some (BrokerError ''channel closed''),
             [CallQueueBind ''celery'' ''celery'' [] False,
              CallConsume ''celery'' [] False True False False,
              Log (BrokerError ''channel closed'')])
   \<and> (\<exists>evs. Consume (ch_ok (arriving [d1])) ''celery'' [] ''celery'' = Some (None, evs))
   \<and> Consume (ch_ok (forever d1)) ''celery'' [] ''celery'' = None"
proof -
  note a = Consume_returns[where ch = ch_bind_fails and queue = "''celery''"
                             and exchange = "[]" and key = "''celery''"]
  note b = Consume_returns[where ch = ch_open_fails and queue = "''celery''"
                             and exchange = "[]" and key = "''celery''"]
  note c = Consume_returns[where ch = "ch_ok (arriving [d1])" and queue = "''celery''"
                             and exchange = "[]" and key = "''celery''"]
  note d = Consume_returns[where ch = "ch_ok (forever d1)" and queue = "''celery''"
                             and exchange = "[]" and key = "''celery''"]
  have 1: "Consume ch_bind_fails ''celery'' [] ''celery''
     = Some (Some (BrokerError ''no queue''),
             [CallQueueBind ''celery'' ''celery'' [] False, Log (BrokerError ''no queue'')])"
    using a by (simp add: ch_bind_fails_def)
  have 2: "Consume ch_open_fails ''celery'' [] ''celery''
     = Some (Some (BrokerError ''channel closed''),
             [CallQueueBind ''celery'' ''celery'' [] False,
              CallConsume ''celery'' [] False True False False,
              Log (BrokerError ''channel closed'')])"
    using b by (simp add: ch_open_fails_def)
  have 3: "\<exists>evs. Consume (ch_ok (arriving [d1])) ''celery'' [] ''celery'' = Some (None, evs)"
  proof -
    have ex: "\<exists>xs. arriving [d1] = arriving xs" by blast
    from c have c1: "(\<exists>r evs. Consume (ch_ok (arriving [d1])) ''celery'' [] ''celery'' = Some (r, evs))
                      = (\<exists>xs. arriving [d1] = arriving xs)"
      and c2: "\<forall>r evs. Consume (ch_ok (arriving [d1])) ''celery'' [] ''celery'' = Some (r, evs)
                 \<longrightarrow> r = None"
      by (simp_all add: ch_ok_def del: arriving.simps)
    from c1 ex obtain r evs where
      "Consume (ch_ok (arriving [d1])) ''celery'' [] ''celery'' = Some (r, evs)"
      by blast
    with c2 show ?thesis by blast
  qed
  have "\<not> (\<exists>r evs. Consume (ch_ok (forever d1)) ''celery'' [] ''celery'' = Some (r, evs))"
    using d forever_not_arriving by (simp add: ch_ok_def)
  then have 4: "Consume (ch_ok (forever d1)) ''celery'' [] ''celery'' = None"
    by (cases "Consume (ch_ok (forever d1)) ''celery'' [] ''celery''") auto
  from 1 2 3 4 show ?thesis by blast
qed

section \<open>Properties of the task model\<close>

subsection \<open>Helper facts\<close>

lemma MarshalJSON_task_add: \<open>MarshalJSON task_add = Inr ''{"task":"tasks.add","id":"1"}''\<close>
  by code_simp

lemma MarshalJSON_task_unsupported: "MarshalJSON task_unsupported = Inl UnsupportedTypeError"
  by code_simp

lemma UnmarshalJSON_bad_expires:
  \<open>UnmarshalJSON task_old ''{"task":"new","eta":"2023-05-01T12:00:00.123456","expires":"soon"}''
     = (\<lparr>Task = ''new'', Id = [], Args = [], KWArgs = [], Retries = 0,
         ETA = may_1_2023, Expires = zeroTime\<rparr>, Some (ParseError ''soon''))\<close>
  by code_simp






subsection \<open>Publish\<close>

text \<open>
  C6. When \<^verbatim>\<open>MarshalJSON\<close> fails, \<^verbatim>\<open>Publish\<close> returns the error (as
  \<^verbatim>\<open>json.Marshal\<close> wraps it) and no call is made on the channel. When it
  succeeds, exactly one call is made, \<^verbatim>\<open>ch.Publish(exchange, key, false, false, msg)\<close>,
  where the body of \<open>msg\<close> is the encoded task, the delivery mode is persistent,
  the content type is \<^verbatim>\<open>application/json\<close>, the content encoding is
  \<^verbatim>\<open>utf-8\<close> and the timestamp is the time read when the message was built; what
  \<^verbatim>\<open>Publish\<close> returns is what that call returned.
\<close>

theorem Publish_sends_encoded_task_once:
  "(\<forall>e. MarshalJSON t = Inl e \<longrightarrow> Publish t ch now exchange key = (Some (MarshalerError e), []))
   \<and> (\<forall>body. MarshalJSON t = Inr body \<longrightarrow>
        Publish t ch now exchange key
          = (publish_result ch,
             [CallPublish exchange key False False
                \<lparr>DeliveryMode = Persistent, Timestamp = now, ContentType = ''application/json'',
                  ContentEncoding = ''utf-8'', Body = body\<rparr>]))"
  by (simp add: Publish_def json_Marshal_Task_def)

theorem Publish_sends_encoded_task_once_witness:
  \<open>MarshalJSON task_unsupported = Inl UnsupportedTypeError
   \<and> Publish task_unsupported (ch_ok Closed) may_1_2023 [] ''celery''
       = (Some (MarshalerError UnsupportedTypeError), [])
   \<and> MarshalJSON task_add = Inr ''{"task":"tasks.add","id":"1"}''
   \<and> Publish task_add (ch_ok Closed) may_1_2023 [] ''celery''
       = (None,
          [CallPublish [] ''celery'' False False
             \<lparr>DeliveryMode = Persistent, Timestamp = may_1_2023, ContentType = ''application/json'',
               ContentEncoding = ''utf-8'', Body = ''{"task":"tasks.add","id":"1"}''\<rparr>])
   \<and> Publish task_add ch_publish_fails may_1_2023 [] ''celery''
       = (Some (BrokerError ''channel closed''),
          [CallPublish [] ''celery'' False False
             \<lparr>DeliveryMode = Persistent, Timestamp = may_1_2023, ContentType = ''application/json'',
               ContentEncoding = ''utf-8'', Body = ''{"task":"tasks.add","id":"1"}''\<rparr>])\<close>
  using Publish_sends_encoded_task_once[where t = task_unsupported and ch = "ch_ok Closed"
          and now = may_1_2023 and exchange = "[]" and key = "''celery''"]
        Publish_sends_encoded_task_once[where t = task_add and ch = "ch_ok Closed"
          and now = may_1_2023 and exchange = "[]" and key = "''celery''"]
        Publish_sends_encoded_task_once[where t = task_add and ch = ch_publish_fails
          and now = may_1_2023 and exchange = "[]" and key = "''celery''"]
  by (simp add: MarshalJSON_task_add MarshalJSON_task_unsupported ch_ok_def ch_publish_fails_def)

subsection \<open>Decoding: the error that is returned\<close>

text \<open>
  C3, at the input of the specification. The bytes \<^verbatim>\<open>{not json\<close> are not valid
  JSON and \<^verbatim>\<open>json.Unmarshal\<close> reports a \<^verbatim>\<open>SyntaxError\<close>, but
  \<^verbatim>\<open>UnmarshalJSON\<close> assigns \<^verbatim>\<open>err\<close> again from both calls of
  \<^verbatim>\<open>time.Parse\<close>: what it returns is the \<^verbatim>\<open>ParseError\<close> of
  \<^verbatim>\<open>time.Parse\<close> on the empty string, a time format failure, and the syntax
  error is lost.
\<close>

theorem UnmarshalJSON_not_json:
  \<open>parse_json ''{not json'' = None
   \<and> json_Unmarshal ''{not json'' zeroFormattedTask = (Some SyntaxError, zeroFormattedTask)
   \<and> UnmarshalJSON task_add ''{not json'' = (zeroTask, Some (ParseError []))\<close>
  by code_simp

text \<open>
  C2, at an input without \<^verbatim>\<open>eta\<close> and at one whose \<^verbatim>\<open>eta\<close> does not
  parse, both with an \<^verbatim>\<open>expires\<close> that parses. \<^verbatim>\<open>time.Parse\<close> fails on
  the \<^verbatim>\<open>eta\<close>, but its error is overwritten by the result of the second call:
  \<^verbatim>\<open>UnmarshalJSON\<close> returns \<^verbatim>\<open>nil\<close> and leaves \<^verbatim>\<open>ETA\<close> at the zero
  time.
\<close>

theorem UnmarshalJSON_eta_missing:
  \<open>Parse timeFormat [] = (zeroTime, Some (ParseError []))
   \<and> UnmarshalJSON zeroTask ''{"task":"a","id":"b","expires":"2023-05-01T12:00:00.123456"}''
       = (zeroTask\<lparr>Task := ''a'', Id := ''b'', Expires := may_1_2023\<rparr>, None)
   \<and> Parse timeFormat ''tomorrow'' = (zeroTime, Some (ParseError ''tomorrow''))
   \<and> UnmarshalJSON zeroTask
        ''{"task":"a","id":"b","eta":"tomorrow","expires":"2023-05-01T12:00:00.123456"}''
       = (zeroTask\<lparr>Task := ''a'', Id := ''b'', Expires := may_1_2023\<rparr>, None)\<close>
  by code_simp

subsection \<open>Decoding: what an error leaves behind\<close>

text \<open>
  C10. Whenever \<^verbatim>\<open>UnmarshalJSON\<close> returns an error, the task has been
  overwritten all the same: \<^verbatim>\<open>Task\<close>, \<^verbatim>\<open>Id\<close>, \<^verbatim>\<open>Args\<close>,
  \<^verbatim>\<open>KWArgs\<close> and \<^verbatim>\<open>Retries\<close> hold what \<^verbatim>\<open>json.Unmarshal\<close> left in a
  fresh \<^verbatim>\<open>FormattedTask\<close> (the zero values when the bytes are not valid JSON),
  \<^verbatim>\<open>ETA\<close> holds what \<^verbatim>\<open>time.Parse\<close> returned for \<^verbatim>\<open>eta\<close>, parsed or
  not, and \<^verbatim>\<open>Expires\<close> holds the zero time. Nothing of the task as it was before
  the call is kept.
\<close>

theorem UnmarshalJSON_overwrites_on_error:
  assumes "UnmarshalJSON t data = (t', Some e)"
  shows "Task t' = fTask (snd (json_Unmarshal data zeroFormattedTask))
     \<and> Id t' = fId (snd (json_Unmarshal data zeroFormattedTask))
     \<and> Args t' = fArgs (snd (json_Unmarshal data zeroFormattedTask))
     \<and> KWArgs t' = fKWArgs (snd (json_Unmarshal data zeroFormattedTask))
     \<and> Retries t' = fRetries (snd (json_Unmarshal data zeroFormattedTask))
     \<and> ETA t' = fst (Parse timeFormat (fETA (snd (json_Unmarshal data zeroFormattedTask))))
     \<and> Expires t' = zeroTime
     \<and> (parse_json data = None \<longrightarrow> t' = zeroTask)"
proof -
  obtain err task where u: "json_Unmarshal data zeroFormattedTask = (err, task)"
    by (cases "json_Unmarshal data zeroFormattedTask")
  obtain eta e1 where p1: "Parse timeFormat (fETA task) = (eta, e1)"
    by (cases "Parse timeFormat (fETA task)")
  obtain expires e2 where p2: "Parse timeFormat (fExpires task) = (expires, e2)"
    by (cases "Parse timeFormat (fExpires task)")
  from assms u p1 p2 have t': "t' = t\<lparr>Task := fTask task, Id := fId task, Args := fArgs task,
        KWArgs := fKWArgs task, Retries := fRetries task, ETA := eta, Expires := expires\<rparr>"
    and e2: "e2 = Some e"
    by (simp_all add: UnmarshalJSON_def Let_def)
  from p2 e2 have z: "expires = zeroTime"
    by (auto simp: Parse_def split: option.splits if_splits)
  have syn: "parse_json data = None \<Longrightarrow> t' = zeroTask"
  proof -
    assume n: "parse_json data = None"
    with u have "task = zeroFormattedTask" by (simp add: json_Unmarshal_def)
    moreover have "Parse timeFormat [] = (zeroTime, Some (ParseError []))" by code_simp
    ultimately show "t' = zeroTask"
      using t' p1 z by (simp add: zeroFormattedTask_def zeroTask_def)
  qed
  from t' u p1 z syn show ?thesis by simp
qed

theorem UnmarshalJSON_overwrites_on_error_witness:
  \<open>UnmarshalJSON task_old ''{"task":"new","eta":"2023-05-01T12:00:00.123456","expires":"soon"}''
     = (\<lparr>Task = ''new'', Id = [], Args = [], KWArgs = [], Retries = 0,
         ETA = may_1_2023, Expires = zeroTime\<rparr>, Some (ParseError ''soon''))
   \<and> Task \<lparr>Task = ''new'', Id = [], Args = [], KWArgs = [], Retries = 0,
         ETA = may_1_2023, Expires = zeroTime\<rparr>
      = fTask (snd (json_Unmarshal ''{"task":"new","eta":"2023-05-01T12:00:00.123456","expires":"soon"}'' zeroFormattedTask))
   \<and> Expires \<lparr>Task = ''new'', Id = [], Args = [], KWArgs = [], Retries = 0,
         ETA = may_1_2023, Expires = zeroTime\<rparr> = zeroTime\<close>
  using UnmarshalJSON_overwrites_on_error[OF UnmarshalJSON_bad_expires] UnmarshalJSON_bad_expires
  by simp

subsection \<open>Encoding: the keys of the object\<close>



subsection \<open>Encoding: the time strings\<close>


lemma toUTC_fields [simp]:
  "valid_time (toUTC t) = valid_time t"
  "four_digit_year (toUTC t) = four_digit_year t"
  "canonical_time (toUTC t) = canonical_time t"
  "Nanosecond (toUTC t) = Nanosecond t"
  by (simp_all add: toUTC_def valid_time_def four_digit_year_def canonical_time_def
                    canonical_seconds_def)







section \<open>The round trip through the wire\<close>

subsection \<open>Values of type \<^verbatim>\<open>interface{}\<close>\<close>




subsection \<open>Decoding the members of the struct\<close>

lemma saveError_None [simp]: "saveError None e = e"
  by (simp add: saveError_def)












subsection \<open>The members are well formed\<close>








subsection \<open>The round trip\<close>






end
